theory Spec2Isabelle
  imports Main "HOL-Library.AList"
begin

section \<open>pinas: an expression evaluation sandbox\<close>

text \<open>
  A shallow embedding of \<^verbatim>\<open>src/src/pinas.py\<close>. The module has three parts: the
  whitelists and the blacklist, \<^verbatim>\<open>Backend\<close> (the registry of what an expression may
  reach) and \<^verbatim>\<open>Expression\<close> (the token scan of \<^verbatim>\<open>__init__\<close>, the environment of
  \<^verbatim>\<open>effective_namespace\<close> and \<^verbatim>\<open>eval\<close>).

  Python sets are HOL sets, dictionaries are maps, lists and tuples are lists, and
  every \<^verbatim>\<open>raise\<close> is an \<open>Inl\<close> of the result. Strings are ASCII.
\<close>

subsection \<open>Whitelists and blacklist\<close>

definition default_allow_builtin_names :: "string set" where
  "default_allow_builtin_names =
     {''False'', ''None'', ''True'', ''abs'', ''all'', ''any'', ''bin'', ''bytes'', ''chr'',
      ''float'', ''hex'', ''int'', ''len'', ''max'', ''min'', ''oct'', ''ord'', ''pow'',
      ''range'', ''round'', ''sorted'', ''str'', ''sum''}"

definition default_allow_keywords :: "string set" where
  "default_allow_keywords = {''and'', ''or'', ''not'', ''in'', ''if'', ''else'', ''for''}"

definition default_allow_methods :: "string set" where
  "default_allow_methods =
     {''encode'', ''decode'', ''from_hex'', ''split'', ''join'', ''upper'', ''lower'',
      ''casefold'', ''replace'', ''find'', ''format'', ''isalpha'', ''isdigit'', ''isascii'',
      ''isdecimal'', ''isdigit'', ''isidentifier'', ''islower'', ''isupper'', ''isnumeric'',
      ''isprintable'', ''isspace'', ''strip'', ''lstrip'', ''rstrip'', ''startswith'',
      ''endswith'', ''rjust'', ''ljust'', ''zfill'', ''index''}"

definition known_unsafe_builtins :: "string set" where
  "known_unsafe_builtins =
     {''getattr'', ''setattr'', ''delattr'', ''vars'', ''open'', ''__import__'', ''compile'',
      ''exec'', ''eval'', ''globals'', ''locals'', ''memoryview'', ''delattr'', ''__loader__'',
      ''__build_class__'', ''property'', ''staticmethod'', ''classmethod'', ''type'',
      ''object'', ''super'', ''vars'', ''dir''}"

subsection \<open>Tokens, values and exceptions\<close>

text \<open>
  The token types of Python's \<^verbatim>\<open>token\<close> module that the scan tells apart; every other
  type (f-string parts, soft keywords, ...) is \<open>OTHERTYPE\<close> with its number.
\<close>

datatype tok_type =
    NAME | NUMBER | STRING | OP | ERRORTOKEN
  | COMMENT | NEWLINE | INDENT | DEDENT | ENDMARKER | NL
  | OTHERTYPE nat

text \<open>\<^verbatim>\<open>tokenize.TokenInfo\<close>; \<open>tok_start\<close> and \<open>tok_end\<close> are (row, column) pairs.\<close>

record token =
  tok_type :: tok_type
  tok_string :: string
  tok_start :: "nat \<times> nat"
  tok_end :: "nat \<times> nat"

text \<open>The plain values an expression computes with.\<close>

datatype pval = VInt int | VBool bool | VNone | VStr string | VTuple "pval list"

text \<open>
  Every exception of the module and of the Python runtime under it is a value.
  \<open>PinasNameError\<close> carries \<^verbatim>\<open>names\<close> (a set in \<^verbatim>\<open>eval\<close>, a list in
  \<^verbatim>\<open>supply_namespace_args\<close>; the model keeps the set of its elements).
  \<open>NameError\<close> carries the \<^verbatim>\<open>name\<close> attribute (\<open>None\<close> when the exception has none).
  \<open>ValueError_ambiguous\<close> is the \<^verbatim>\<open>ValueError("'%s' is ambiguous")\<close> of
  \<^verbatim>\<open>effective_namespace\<close>; it carries the names the message can mention (the loop runs
  over a set, so which of them it meets first is not fixed).
  \<open>Unmodelled\<close> is not a Python exception: it marks an input outside the fragment of
  the Python runtime that this theory models.
\<close>

datatype exc =
    PinasExpressionError token string
  | PinasNameError "string set"
  | ValueError
  | ValueError_ambiguous "string set"
  | AttributeError
  | KeyError
  | IndexError
  | NameError "string option"
  | SyntaxError
  | TokenError
  | TypeError
  | Unmodelled

text \<open>
  A code object, as far as \<^verbatim>\<open>NamedParameterNames\<close> and \<^verbatim>\<open>ImpliedArguments\<close>
  read it.
\<close>

record code =
  co_varnames :: "string list"
  co_posonlyargcount :: nat
  co_argcount :: nat
  co_kwonlyargcount :: nat

text \<open>
  The objects a name can be bound to: a plain value; a Python function with its
  \<^verbatim>\<open>__code__\<close>, its \<^verbatim>\<open>__kwdefaults__\<close> (\<open>None\<close> or a dictionary) and what a call
  of it does with positional and keyword arguments; a builtin function, which has no
  \<^verbatim>\<open>__code__\<close>; the closure \<^verbatim>\<open>supply_namespace_args\<close> that
  \<^verbatim>\<open>SupplyImpliedArguments\<close> returns for a function (the namespace it closes over is
  the environment it is stored in, see \<open>effective_namespace\<close>); a dictionary.
\<close>

datatype obj =
    Val pval
  | Function code "(string \<times> pval) list option"
      "pval list \<Rightarrow> (string \<times> pval) list \<Rightarrow> exc + pval"
  | Builtin "pval list \<Rightarrow> (string \<times> pval) list \<Rightarrow> exc + pval"
  | Supplier obj
  | Dict "(string \<times> obj) list"

subsection \<open>Function introspection\<close>

text \<open>
  \<^verbatim>\<open>co.co_varnames[a:b]\<close>: a Python slice with bounds \<open>0 \<le> a\<close>, \<open>0 \<le> b\<close>.
\<close>

definition slice :: "'a list \<Rightarrow> nat \<Rightarrow> nat \<Rightarrow> 'a list" where
  "slice xs a b = drop a (take b xs)"

fun NamedParameterNames :: "obj \<Rightarrow> string list" where
  "NamedParameterNames (Function co kwd f) =
     slice (co_varnames co) (co_posonlyargcount co) (co_argcount co + co_kwonlyargcount co)"
| "NamedParameterNames _ = []"

fun ImpliedArguments :: "obj \<Rightarrow> string list" where
  "ImpliedArguments (Function co kwd f) =
     (if co_kwonlyargcount co = 0 then []
      else let kwonlyargs =
                 slice (co_varnames co) (co_argcount co) (co_argcount co + co_kwonlyargcount co)
           in (case kwd of
                 None \<Rightarrow> kwonlyargs
               | Some d \<Rightarrow>
                   if \<not> (\<exists>anavn \<in> set kwonlyargs. anavn \<in> fst ` set d) then kwonlyargs
                   else []))"
| "ImpliedArguments _ = []"

subsection \<open>Backend\<close>

text \<open>
  The host's module: \<^verbatim>\<open>module.__all__\<close> and what \<^verbatim>\<open>getattr(module, n)\<close> finds
  (\<open>None\<close> where it raises \<^verbatim>\<open>AttributeError\<close>).
\<close>

record module =
  module_all :: "string list"
  module_getattr :: "string \<rightharpoonup> obj"

record Backend =
  allow_methods :: "string set"
  allow_keywords :: "string set"
  allow_keywords_and_methods :: "string set"
  predefined_names :: "string set"
  module_functions :: "string \<rightharpoonup> obj"
  SupplyImpliedArguments_for :: "(string \<times> obj) list"
  predefined_functions :: "string \<rightharpoonup> obj"
  named_parameter_names_for :: "string \<rightharpoonup> string set"

text \<open>\<^verbatim>\<open>n.startswith('_')\<close>\<close>

definition startswith_underscore :: "string \<Rightarrow> bool" where
  "startswith_underscore n = (case n of [] \<Rightarrow> False | c # _ \<Rightarrow> c = CHR ''_'')"

text \<open>
  The value stored in \<^verbatim>\<open>_named_parameter_names_for[n]\<close> for a function
  (lines 140 and 141).
\<close>

definition allowed_named_params :: "obj \<Rightarrow> string set" where
  "allowed_named_params fn =
     set (filter (\<lambda>n. \<not> startswith_underscore n) (NamedParameterNames fn))
       - set (ImpliedArguments fn)"

text \<open>
  The keys of \<^verbatim>\<open>dict((n, getattr(module, n)) for n in module.__all__)\<close> in the order
  of \<^verbatim>\<open>items()\<close>: each name once, at its first position.
\<close>

definition dict_keys_of :: "string list \<Rightarrow> string list" where
  "dict_keys_of ns = rev (remdups (rev ns))"

text \<open>
  \<^verbatim>\<open>Backend.__init__\<close>. \<open>builtins\<close> is Python's \<^verbatim>\<open>builtins\<close> module, looked up with
  \<^verbatim>\<open>getattr\<close>; the three overrides are \<open>None\<close> when the caller leaves them out.
  The override sets must be finite sets for the comprehensions to run; the checks
  themselves are membership tests.
\<close>

definition Backend_init ::
  "(string \<rightharpoonup> obj) \<Rightarrow> module \<Rightarrow> string set option \<Rightarrow> string set option \<Rightarrow>
     string set option \<Rightarrow> exc + Backend" where
  "Backend_init builtins m allow_builtin_names_arg allow_keywords_arg allow_methods_arg =
     (let allow_builtin_names =
            (case allow_builtin_names_arg of None \<Rightarrow> default_allow_builtin_names | Some s \<Rightarrow> s)
      in
      if allow_builtin_names \<inter> known_unsafe_builtins \<noteq> {} then Inl ValueError
      else if \<exists>n \<in> allow_builtin_names. builtins n = None then Inl AttributeError
      else
        let allow_builtin_functions = builtins |` allow_builtin_names;
            allow_kw = (case allow_keywords_arg of None \<Rightarrow> default_allow_keywords | Some s \<Rightarrow> s);
            allow_me = (case allow_methods_arg of None \<Rightarrow> default_allow_methods | Some s \<Rightarrow> s)
        in
        if \<exists>n \<in> set (module_all m). module_getattr m n = None then Inl AttributeError
        else
          let module_fns = module_getattr m |` set (module_all m) in
          Inr \<lparr> allow_methods = allow_me,
                allow_keywords = allow_kw,
                allow_keywords_and_methods = allow_kw \<union> allow_me,
                predefined_names = set (module_all m) \<union> allow_builtin_names,
                module_functions = module_fns,
                SupplyImpliedArguments_for =
                  filter (\<lambda>(n, fn). length (ImpliedArguments fn) > 0)
                    (map (\<lambda>n. (n, the (module_fns n))) (dict_keys_of (module_all m))),
                predefined_functions = allow_builtin_functions ++ module_fns,
                named_parameter_names_for =
                  (map_option allowed_named_params \<circ> allow_builtin_functions)
                    ++ (map_option allowed_named_params \<circ> module_fns) \<rparr>)"


subsection \<open>Expression: the token scan of \<^verbatim>\<open>__init__\<close>\<close>

text \<open>
  The local variables of the loop over the tokens (lines 158 to 164). \<open>net_expr\<close> is
  the list of pieces that \<^verbatim>\<open>''.join\<close> glues at the end; \<open>prev\<close> is \<open>None\<close> before the
  first kept token.
\<close>

record scan_state =
  unbound_names :: "string set"
  used_named_params :: "string set"
  available_named_parameter_names :: "string set"
  net_expr :: "string list"
  net_toks :: "token list"
  prev_end :: "nat \<times> nat"
  prev :: "token option"

definition scan_start :: scan_state where
  "scan_start = \<lparr> unbound_names = {}, used_named_params = {},
                   available_named_parameter_names = {}, net_expr = [], net_toks = [],
                   prev_end = (1, 0), prev = None \<rparr>"

text \<open>
  Lines 166 to 170: the gap put in front of a token that does not start where the last
  kept token ended. \<^verbatim>\<open>' ' * k\<close> is empty for \<open>k \<le> 0\<close>, as the truncating
  subtraction of \<open>nat\<close> makes \<open>replicate\<close>.
\<close>

definition layout_gap :: "nat \<times> nat \<Rightarrow> token \<Rightarrow> string list" where
  "layout_gap pe tok =
     (if tok_start tok \<noteq> pe then
        (if fst (tok_start tok) = fst pe
         then [replicate (snd (tok_start tok) - snd pe) CHR '' '']
         else [''  ''])
      else [])"

text \<open>
  Lines 171 to 193: the checks on one token. The result is the state with the names
  recorded, or the exception raised. \<^verbatim>\<open>tok.string[-1]\<close> on an empty string raises
  \<^verbatim>\<open>IndexError\<close>.
\<close>

definition check_token :: "Backend \<Rightarrow> scan_state \<Rightarrow> token \<Rightarrow> exc + scan_state" where
  "check_token backend s tok =
     (if tok_type tok = NAME then
        (if prev s \<noteq> None \<and> tok_string (the (prev s)) = ''.'' then
           (if tok_string tok \<notin> allow_methods backend
            then Inl (PinasExpressionError tok (''Illegal method .'' @ tok_string tok))
            else Inr s)
         else
           Inr (s\<lparr> available_named_parameter_names :=
                     available_named_parameter_names s \<union>
                       (case named_parameter_names_for backend (tok_string tok) of
                          None \<Rightarrow> {} | Some ps \<Rightarrow> ps),
                   unbound_names := insert (tok_string tok) (unbound_names s) \<rparr>))
      else if tok_type tok = ERRORTOKEN then
        Inl (PinasExpressionError tok ''Syntax error'')
      else if tok_type tok = OP then
        (if tok_string tok = [] then Inl IndexError
         else if last (tok_string tok) = CHR ''='' then
           (if tok_string tok = ''='' then
              (if prev s \<noteq> None \<and> tok_type (the (prev s)) = NAME then
                 (if tok_string (the (prev s)) \<notin> available_named_parameter_names s
                  then Inl (PinasExpressionError tok
                              (''No such named parameter: '' @ tok_string (the (prev s))))
                  else Inr (s\<lparr> used_named_params :=
                                 insert (tok_string (the (prev s))) (used_named_params s) \<rparr>))
               else Inl (PinasExpressionError tok ''Syntax error''))
            else if tok_string tok \<notin> set [''='', ''=='', ''!='', ''<='', ''>='']
            then Inl (PinasExpressionError tok (''Illegal operator '' @ tok_string tok))
            else Inr s)
         else Inr s)
      else Inr s)"

text \<open>Line 194: the token types that are dropped.\<close>

definition dropped_type :: "tok_type \<Rightarrow> bool" where
  "dropped_type ty = (ty \<in> set [COMMENT, NEWLINE, INDENT, DEDENT, ENDMARKER, NL])"

text \<open>Lines 194 to 200.\<close>

definition keep_token :: "scan_state \<Rightarrow> token \<Rightarrow> scan_state" where
  "keep_token s tok =
     (if dropped_type (tok_type tok) then s
      else s\<lparr> net_toks := net_toks s @ [tok],
              net_expr := net_expr s @ [tok_string tok],
              prev_end := tok_end tok,
              prev := Some tok \<rparr>)"

text \<open>One turn of the loop (lines 166 to 200).\<close>

definition scan_token :: "Backend \<Rightarrow> scan_state \<Rightarrow> token \<Rightarrow> exc + scan_state" where
  "scan_token backend s tok =
     (case check_token backend (s\<lparr> net_expr := net_expr s @ layout_gap (prev_end s) tok \<rparr>) tok of
        Inl e \<Rightarrow> Inl e
      | Inr s' \<Rightarrow> Inr (keep_token s' tok))"

text \<open>The loop over the tokens that the tokenizer delivers, stopping at the first raise.\<close>

fun scan_tokens :: "Backend \<Rightarrow> scan_state \<Rightarrow> token list \<Rightarrow> exc + scan_state" where
  "scan_tokens backend s [] = Inr s"
| "scan_tokens backend s (tok # toks) =
     (case scan_token backend s tok of
        Inl e \<Rightarrow> Inl e
      | Inr s' \<Rightarrow> scan_tokens backend s' toks)"

text \<open>
  \<^verbatim>\<open>str.strip()\<close> with no argument: the ASCII characters for which \<^verbatim>\<open>isspace()\<close>
  holds are 9 to 13 and 28 to 32.
\<close>

definition py_isspace :: "char \<Rightarrow> bool" where
  "py_isspace c = (let n = of_char c :: nat in (9 \<le> n \<and> n \<le> 13) \<or> (28 \<le> n \<and> n \<le> 32))"

definition strip :: "string \<Rightarrow> string" where
  "strip s = rev (dropWhile py_isspace (rev (dropWhile py_isspace s)))"

record Expression =
  backend_of :: Backend
  expr :: string
  net_tokens :: "token list"
  predefined_names_of :: "string set"
  free_variables :: "string set"
  base_namespace :: "string \<rightharpoonup> obj"

text \<open>
  Lines 208 to 214: the implied arguments of the functions the expression uses.
  The pair is (\<^verbatim>\<open>self.predefined_names\<close>, \<^verbatim>\<open>self.free_variables\<close>), updated in place.
\<close>

definition add_implied_arg :: "Backend \<Rightarrow> string \<Rightarrow> string set \<times> string set \<Rightarrow> string set \<times> string set" where
  "add_implied_arg backend implied_arg pf =
     (if implied_arg \<in> predefined_names backend
      then (insert implied_arg (fst pf), snd pf)
      else (fst pf, insert implied_arg (snd pf)))"

fun add_implied :: "Backend \<Rightarrow> (string \<times> obj) list \<Rightarrow> string set \<times> string set \<Rightarrow> string set \<times> string set" where
  "add_implied backend [] pf = pf"
| "add_implied backend ((n, fn) # rest) pf =
     add_implied backend rest
       (if n \<in> fst pf then fold (add_implied_arg backend) (ImpliedArguments fn) pf else pf)"

text \<open>
  Lines 202 to 218, after the loop. \<^verbatim>\<open>backend.predefined_functions[n]\<close> raises
  \<^verbatim>\<open>KeyError\<close> for a name without an entry. The base namespace is
  \<^verbatim>\<open>dict(__builtins__=dict())\<close> with the entries of the predefined names written over it.
\<close>

definition finish_scan :: "Backend \<Rightarrow> scan_state \<Rightarrow> exc + Expression" where
  "finish_scan backend s =
     (let pf = add_implied backend (SupplyImpliedArguments_for backend)
                 ((unbound_names s \<inter> predefined_names backend) - allow_keywords_and_methods backend,
                  unbound_names s - predefined_names backend - allow_keywords_and_methods backend)
      in
      if \<exists>n \<in> fst pf. predefined_functions backend n = None then Inl KeyError
      else
        Inr \<lparr> backend_of = backend,
              expr = strip (concat (net_expr s)),
              net_tokens = net_toks s,
              predefined_names_of = fst pf,
              free_variables = snd pf,
              base_namespace =
                [''__builtins__'' \<mapsto> Dict []] ++ (predefined_functions backend |` fst pf) \<rparr>)"

text \<open>
  \<^verbatim>\<open>Expression.__init__\<close> on a token stream: \<open>toks\<close> are the tokens the generator
  \<^verbatim>\<open>tokenize.generate_tokens\<close> yields, in order, and \<open>raised\<close> is the exception with
  which it stops instead of finishing, if any. The generator is lazy, so a token that
  the loop rejects hides what the tokenizer would raise later.
\<close>

definition Expression_init_tokens :: "Backend \<Rightarrow> token list \<times> exc option \<Rightarrow> exc + Expression" where
  "Expression_init_tokens backend stream =
     (case scan_tokens backend scan_start (fst stream) of
        Inl e \<Rightarrow> Inl e
      | Inr s \<Rightarrow>
          (case snd stream of
             Some e \<Rightarrow> Inl e
           | None \<Rightarrow> finish_scan backend s))"


subsection \<open>The Python runtime under the module: \<^verbatim>\<open>tokenize.generate_tokens\<close>\<close>

text \<open>
  \<^verbatim>\<open>Expression.__init__\<close> reads its tokens from the standard library's
  \<^verbatim>\<open>tokenize.generate_tokens\<close>. The tokenizer is modelled (Modelled from the Python
  library, not from this repository: CPython 3.10 and 3.11, \<^verbatim>\<open>Lib/tokenize.py\<close>) on a
  fragment of the input language: lines ended by \<^verbatim>\<open>\n\<close>, blanks, comments, names,
  decimal integers, one-line string literals without backslash (with or without a
  prefix: an f-string is one \<open>STRING\<close> token to this tokenizer), and the operators. On anything else (tabs, indentation, floats, error characters, ...) the
  model gives \<open>None\<close>: it says nothing rather than something wrong.
\<close>

definition mk_token :: "tok_type \<Rightarrow> string \<Rightarrow> nat \<Rightarrow> nat \<Rightarrow> nat \<Rightarrow> token" where
  "mk_token ty s lnum c0 c1 =
     \<lparr> tok_type = ty, tok_string = s, tok_start = (lnum, c0), tok_end = (lnum, c1) \<rparr>"

definition is_digit :: "char \<Rightarrow> bool" where
  "is_digit c = (let n = of_char c :: nat in 48 \<le> n \<and> n \<le> 57)"

definition is_name_start :: "char \<Rightarrow> bool" where
  "is_name_start c =
     (let n = of_char c :: nat in (65 \<le> n \<and> n \<le> 90) \<or> (97 \<le> n \<and> n \<le> 122) \<or> n = 95)"

definition is_name_char :: "char \<Rightarrow> bool" where
  "is_name_char c = (is_name_start c \<or> is_digit c)"

definition is_quote :: "char \<Rightarrow> bool" where
  "is_quote c = (c = CHR 0x27 \<or> c = CHR 0x22)"

text \<open>
  The string prefixes, \<^verbatim>\<open>tokenize._all_string_prefixes()\<close>: \<^verbatim>\<open>b\<close>, \<^verbatim>\<open>r\<close>, \<^verbatim>\<open>u\<close>,
  \<^verbatim>\<open>f\<close>, \<^verbatim>\<open>br\<close>, \<^verbatim>\<open>fr\<close> in every order and case. A name right before a quote is a
  prefix when the whole name is one of them; otherwise it is a name and the string
  starts at the quote.
\<close>

definition string_prefixes :: "string list" where
  "string_prefixes =
     [''b'', ''B'', ''r'', ''R'', ''u'', ''U'', ''f'', ''F'',
      ''br'', ''bR'', ''Br'', ''BR'', ''rb'', ''rB'', ''Rb'', ''RB'',
      ''fr'', ''fR'', ''Fr'', ''FR'', ''rf'', ''rF'', ''Rf'', ''RF'']"

text \<open>The operators of \<^verbatim>\<open>token.EXACT_TOKEN_TYPES\<close>, by length.\<close>

definition operators3 :: "string list" where
  "operators3 = [''**='', ''//='', ''>>='', ''<<='', ''...'']"

definition operators2 :: "string list" where
  "operators2 = [''=='', ''!='', ''<='', ''>='', ''<<'', ''>>'', ''**'', ''//'', ''+='', ''-='',
                 ''*='', ''/='', ''%='', ''&='', ''|='', ''^='', ''@='', ''->'', '':='']"

definition operators1 :: "string list" where
  "operators1 = [''('', '')'', ''['', '']'', ''{'', ''}'', '':'', '','', '';'', ''+'', ''-'', ''*'',
                 ''/'', ''|'', ''&'', ''<'', ''>'', ''='', ''.'', ''%'', ''~'', ''^'', ''@'']"

text \<open>The longest operator at the head of the text.\<close>

definition match_op :: "string \<Rightarrow> string option" where
  "match_op s =
     (if take 3 s \<in> set operators3 then Some (take 3 s)
      else if take 2 s \<in> set operators2 then Some (take 2 s)
      else if take 1 s \<in> set operators1 then Some (take 1 s)
      else None)"

definition paren_step :: "string \<Rightarrow> int" where
  "paren_step op =
     (if op \<in> set [''('', ''['', ''{''] then 1
      else if op \<in> set ['')'', '']'', ''}''] then - 1 else 0)"

text \<open>
  The inner loop of the tokenizer on the rest of a line: the tokens from column
  \<open>col\<close> on and the parenthesis level after them.
\<close>

function tok_line :: "nat \<Rightarrow> nat \<Rightarrow> int \<Rightarrow> string \<Rightarrow> (token list \<times> int) option" where
  "tok_line lnum col lev [] = Some ([], lev)"
| "tok_line lnum col lev (c # cs) =
     (if c = CHR '' '' then tok_line lnum (col + 1) lev cs
      else if c = CHR 0x0A then
        (if cs = [] then
           Some ([mk_token (if lev > 0 then NL else NEWLINE) [c] lnum col (col + 1)], lev)
         else None)
      else if c = CHR ''#'' then
        (let body = c # takeWhile (\<lambda>x. x \<noteq> CHR 0x0A) cs in
         case tok_line lnum (col + length body) lev (dropWhile (\<lambda>x. x \<noteq> CHR 0x0A) cs) of
           None \<Rightarrow> None
         | Some (ts, lev') \<Rightarrow> Some (mk_token COMMENT body lnum col (col + length body) # ts, lev'))
      else if is_digit c then
        (let num = c # takeWhile is_digit cs; rest = dropWhile is_digit cs in
         if (c = CHR ''0'' \<and> length num > 1)
            \<or> (rest \<noteq> [] \<and> (is_name_char (hd rest) \<or> hd rest = CHR ''.'')) then None
         else
           case tok_line lnum (col + length num) lev rest of
             None \<Rightarrow> None
           | Some (ts, lev') \<Rightarrow> Some (mk_token NUMBER num lnum col (col + length num) # ts, lev'))
      else if is_name_start c then
        (let nm = c # takeWhile is_name_char cs; rest = dropWhile is_name_char cs in
         if rest \<noteq> [] \<and> is_quote (hd rest) \<and> nm \<in> set string_prefixes then
           (let q = hd rest;
                body = takeWhile (\<lambda>x. x \<noteq> q) (tl rest);
                rest' = dropWhile (\<lambda>x. x \<noteq> q) (tl rest);
                n = length nm + length body + 2 in
            if rest' = [] \<or> CHR 0x5C \<in> set body \<or> CHR 0x0A \<in> set body then None
            else if body = [] \<and> take 1 (tl rest') = [q] then None
            else
              case tok_line lnum (col + n) lev (tl rest') of
                None \<Rightarrow> None
              | Some (ts, lev') \<Rightarrow>
                  Some (mk_token STRING (nm @ q # body @ [q]) lnum col (col + n) # ts, lev'))
         else
           case tok_line lnum (col + length nm) lev rest of
             None \<Rightarrow> None
           | Some (ts, lev') \<Rightarrow> Some (mk_token NAME nm lnum col (col + length nm) # ts, lev'))
      else if is_quote c then
        (let body = takeWhile (\<lambda>x. x \<noteq> c) cs; rest = dropWhile (\<lambda>x. x \<noteq> c) cs in
         if rest = [] \<or> CHR 0x5C \<in> set body \<or> CHR 0x0A \<in> set body then None
         else if body = [] \<and> take 1 (tl rest) = [c] then None
         else
           case tok_line lnum (col + length body + 2) lev (tl rest) of
             None \<Rightarrow> None
           | Some (ts, lev') \<Rightarrow>
               Some (mk_token STRING (c # body @ [c]) lnum col (col + length body + 2) # ts, lev'))
      else
        (case match_op (c # cs) of
           None \<Rightarrow> None
         | Some op \<Rightarrow>
             if op = ''.'' \<and> cs \<noteq> [] \<and> is_digit (hd cs) then None
             else
               case tok_line lnum (col + length op) (lev + paren_step op) (drop (length op - 1) cs) of
                 None \<Rightarrow> None
               | Some (ts, lev') \<Rightarrow> Some (mk_token OP op lnum col (col + length op) # ts, lev')))"
  by pat_completeness auto
termination
  by (relation "measure (\<lambda>(lnum, col, lev, s). length s)")
     (auto simp: less_Suc_eq_le
           intro: length_dropWhile_le order_trans [OF diff_le_self length_dropWhile_le]
             order_trans [OF diff_le_self order_trans [OF length_dropWhile_le
               order_trans [OF eq_imp_le [OF length_tl, THEN order_trans, OF diff_le_self]
                 length_dropWhile_le]]])

text \<open>\<^verbatim>\<open>readline\<close>: the lines of the text, each with its \<^verbatim>\<open>\n\<close>.\<close>

fun split_lines :: "string \<Rightarrow> string \<Rightarrow> string list" where
  "split_lines acc [] = (if acc = [] then [] else [acc])"
| "split_lines acc (c # cs) =
     (if c = CHR 0x0A then (acc @ [c]) # split_lines [] cs else split_lines (acc @ [c]) cs)"

text \<open>
  One line of the outer loop. At parenthesis level 0 a line starts a statement: a blank
  or comment-only line gives \<open>COMMENT\<close> and \<open>NL\<close>, an indented line is outside the
  fragment.
\<close>

definition tok_one_line :: "nat \<Rightarrow> int \<Rightarrow> string \<Rightarrow> (token list \<times> int) option" where
  "tok_one_line lnum lev line =
     (if lev = 0 then
        (let pos = length (takeWhile (\<lambda>x. x = CHR '' '') line);
             rest = drop pos line
         in
         if rest = [] then None
         else if hd rest = CHR ''#'' then
           (let comment_token = takeWhile (\<lambda>x. x \<noteq> CHR 0x0A) rest;
                pos' = pos + length comment_token
            in Some ([mk_token COMMENT comment_token lnum pos pos',
                      mk_token NL (drop pos' line) lnum pos' (length line)], lev))
         else if hd rest = CHR 0x0A then
           Some ([mk_token NL rest lnum pos (length line)], lev)
         else if pos > 0 then None
         else tok_line lnum 0 lev line)
      else tok_line lnum 0 lev line)"

fun tok_lines :: "nat \<Rightarrow> int \<Rightarrow> string list \<Rightarrow> (token list \<times> nat \<times> int) option" where
  "tok_lines lnum lev [] = Some ([], lnum, lev)"
| "tok_lines lnum lev (line # rest) =
     (case tok_one_line lnum lev line of
        None \<Rightarrow> None
      | Some (ts, lev') \<Rightarrow>
          (case tok_lines (lnum + 1) lev' rest of
             None \<Rightarrow> None
           | Some (ts', r) \<Rightarrow> Some (ts @ ts', r)))"

text \<open>
  The whole generator: the tokens it yields and the exception it stops with
  (\<^verbatim>\<open>TokenError\<close>, "EOF in multi-line statement", when a bracket is open at the end),
  or \<open>None\<close> outside the fragment. Without a final \<^verbatim>\<open>\n\<close> the tokenizer adds an empty
  \<open>NEWLINE\<close> token, unless the last line is a comment.
\<close>

definition generate_tokens :: "string \<Rightarrow> (token list \<times> exc option) option" where
  "generate_tokens text =
     (let lines = split_lines [] text in
      case tok_lines 1 0 lines of
        None \<Rightarrow> None
      | Some (ts, lnum, lev) \<Rightarrow>
          if lev \<noteq> 0 then Some (ts, Some TokenError)
          else
            let last_line = (if lines = [] then [] else last lines);
                implicit =
                  (if last_line \<noteq> [] \<and> last last_line \<noteq> CHR 0x0A
                      \<and> take 1 (strip last_line) \<noteq> ''#''
                   then [mk_token NEWLINE [] (lnum - 1) (length last_line) (length last_line + 1)]
                   else [])
            in Some (ts @ implicit @ [mk_token ENDMARKER [] lnum 0 0], None))"

text \<open>\<^verbatim>\<open>Expression.__init__\<close> on the text of an expression.\<close>

definition Expression_init :: "Backend \<Rightarrow> string \<Rightarrow> exc + Expression" where
  "Expression_init backend text =
     (case generate_tokens text of
        None \<Rightarrow> Inl Unmodelled
      | Some stream \<Rightarrow> Expression_init_tokens backend stream)"


subsection \<open>The Python runtime under the module: \<^verbatim>\<open>eval\<close>\<close>

text \<open>
  \<^verbatim>\<open>Expression.eval\<close> hands the normalised text to Python's builtin \<^verbatim>\<open>eval\<close>. The
  builtin is modelled (from the Python language reference, not from this repository)
  on a fragment of the expression grammar: integer literals, string literals without
  a prefix, \<^verbatim>\<open>True\<close>,
  \<^verbatim>\<open>False\<close>, \<^verbatim>\<open>None\<close>, names, parentheses, unary minus, \<^verbatim>\<open>+\<close>, \<^verbatim>\<open>-\<close>, \<^verbatim>\<open>*\<close> on
  integers, the conditional expression and calls with positional and keyword
  arguments. The parser answers \<open>SyntaxError\<close> only where Python does (an operand is
  missing at the end of the line, a keyword argument is repeated, a bracket is not
  balanced) and \<open>Unmodelled\<close> for everything it does not cover.
\<close>

datatype binop = Add | Sub | Mult

datatype pyexpr =
    Constant pval
  | Name string
  | UnaryMinus pyexpr
  | BinOp pyexpr binop pyexpr
  | IfExp pyexpr pyexpr pyexpr
  | Call pyexpr "pyexpr list" "(string \<times> pyexpr) list"

text \<open>\<open>IfExp test body orelse\<close> is \<^verbatim>\<open>body if test else orelse\<close>, as in Python's \<^verbatim>\<open>ast\<close>.\<close>

definition python_keywords :: "string set" where
  "python_keywords =
     {''False'', ''None'', ''True'', ''and'', ''as'', ''assert'', ''async'', ''await'', ''break'',
      ''class'', ''continue'', ''def'', ''del'', ''elif'', ''else'', ''except'', ''finally'',
      ''for'', ''from'', ''global'', ''if'', ''import'', ''in'', ''is'', ''lambda'', ''nonlocal'',
      ''not'', ''or'', ''pass'', ''raise'', ''return'', ''try'', ''while'', ''with'', ''yield''}"

definition is_op :: "token \<Rightarrow> string \<Rightarrow> bool" where
  "is_op t s = (tok_type t = OP \<and> tok_string t = s)"

definition is_kw :: "token \<Rightarrow> string \<Rightarrow> bool" where
  "is_kw t s = (tok_type t = NAME \<and> tok_string t = s)"

definition int_of_digits :: "string \<Rightarrow> int" where
  "int_of_digits s = fold (\<lambda>c n. 10 * n + (int (of_char c) - 48)) s 0"

text \<open>The text of a string literal between its quotes.\<close>

definition unquote :: "string \<Rightarrow> string" where
  "unquote s = butlast (tl s)"

definition atom_of :: "token \<Rightarrow> exc + pyexpr" where
  "atom_of t =
     (if tok_type t = NEWLINE \<or> tok_type t = ENDMARKER then Inl SyntaxError
      else if tok_type t = NUMBER then Inr (Constant (VInt (int_of_digits (tok_string t))))
      else if tok_type t = STRING then
        (if take 1 (tok_string t) = [CHR 0x27] \<or> take 1 (tok_string t) = [CHR 0x22]
         then Inr (Constant (VStr (unquote (tok_string t))))
         else Inl Unmodelled)
      else if tok_type t = NAME then
        (if tok_string t = ''True'' then Inr (Constant (VBool True))
         else if tok_string t = ''False'' then Inr (Constant (VBool False))
         else if tok_string t = ''None'' then Inr (Constant VNone)
         else if tok_string t \<in> python_keywords then Inl Unmodelled
         else Inr (Name (tok_string t)))
      else Inl Unmodelled)"

text \<open>Sequencing of results: the first exception ends the computation.\<close>

definition bind_result :: "exc + 'a \<Rightarrow> ('a \<Rightarrow> exc + 'b) \<Rightarrow> exc + 'b" where
  "bind_result r f = (case r of Inl e \<Rightarrow> Inl e | Inr x \<Rightarrow> f x)"

text \<open>A test on the next token; there is none after the end marker.\<close>

definition next_is :: "(token \<Rightarrow> bool) \<Rightarrow> token list \<Rightarrow> bool" where
  "next_is P ts = (case ts of [] \<Rightarrow> False | t # _ \<Rightarrow> P t)"

text \<open>
  A recursive descent parser. The parsers below the conditional expression take the
  parser of a whole expression as the argument \<open>p\<close>; \<open>parse_expression\<close> closes the
  recursion. The numeric argument bounds the depth of the descent and the length of
  each chain; when it runs out the answer is \<open>Unmodelled\<close>.
\<close>

type_synonym 'a parser = "token list \<Rightarrow> exc + ('a \<times> token list)"

type_synonym arguments = "pyexpr list \<times> (string \<times> pyexpr) list"

primrec parse_arglist :: "pyexpr parser \<Rightarrow> nat \<Rightarrow> arguments \<Rightarrow> arguments parser" where
  "parse_arglist p 0 aks ts = Inl Unmodelled"
| "parse_arglist p (Suc n) aks ts =
     bind_result
       (if next_is (\<lambda>t. tok_type t = NAME) ts \<and> next_is (\<lambda>t. is_op t ''='') (tl ts) then
          (if tok_string (hd ts) \<in> python_keywords then Inl Unmodelled
           else if tok_string (hd ts) \<in> fst ` set (snd aks) then Inl SyntaxError
           else
             bind_result (p (tl (tl ts))) (\<lambda>r.
               Inr ((fst aks, snd aks @ [(tok_string (hd ts), fst r)]), snd r)))
        else if snd aks \<noteq> [] then Inl Unmodelled
        else bind_result (p ts) (\<lambda>r. Inr ((fst aks @ [fst r], snd aks), snd r)))
       (\<lambda>r.
          if next_is (\<lambda>t. is_op t '')'') (snd r) then Inr (fst r, tl (snd r))
          else if next_is (\<lambda>t. is_op t '','') (snd r) then parse_arglist p n (fst r) (tl (snd r))
          else Inl Unmodelled)"

primrec parse_trailers :: "pyexpr parser \<Rightarrow> nat \<Rightarrow> pyexpr \<Rightarrow> pyexpr parser" where
  "parse_trailers p 0 e ts = Inl Unmodelled"
| "parse_trailers p (Suc n) e ts =
     (if next_is (\<lambda>t. is_op t ''('') ts then
        (if next_is (\<lambda>t. is_op t '')'') (tl ts) then parse_trailers p n (Call e [] []) (tl (tl ts))
         else
           bind_result (parse_arglist p n ([], []) (tl ts)) (\<lambda>r.
             parse_trailers p n (Call e (fst (fst r)) (snd (fst r))) (snd r)))
      else Inr (e, ts))"

definition parse_primary :: "pyexpr parser \<Rightarrow> nat \<Rightarrow> pyexpr parser" where
  "parse_primary p n ts =
     (if ts = [] then Inl Unmodelled
      else if is_op (hd ts) ''('' then
        bind_result (p (tl ts)) (\<lambda>r.
          if next_is (\<lambda>t. is_op t '')'') (snd r) then parse_trailers p n (fst r) (tl (snd r))
          else Inl Unmodelled)
      else bind_result (atom_of (hd ts)) (\<lambda>a. parse_trailers p n a (tl ts)))"

primrec parse_factor :: "pyexpr parser \<Rightarrow> nat \<Rightarrow> pyexpr parser" where
  "parse_factor p 0 ts = Inl Unmodelled"
| "parse_factor p (Suc n) ts =
     (if next_is (\<lambda>t. is_op t ''-'') ts then
        bind_result (parse_factor p n (tl ts)) (\<lambda>r. Inr (UnaryMinus (fst r), snd r))
      else parse_primary p n ts)"

primrec parse_term_rest :: "pyexpr parser \<Rightarrow> nat \<Rightarrow> pyexpr \<Rightarrow> pyexpr parser" where
  "parse_term_rest p 0 l ts = Inl Unmodelled"
| "parse_term_rest p (Suc n) l ts =
     (if next_is (\<lambda>t. is_op t ''*'') ts then
        bind_result (parse_factor p n (tl ts)) (\<lambda>r.
          parse_term_rest p n (BinOp l Mult (fst r)) (snd r))
      else Inr (l, ts))"

definition parse_term :: "pyexpr parser \<Rightarrow> nat \<Rightarrow> pyexpr parser" where
  "parse_term p n ts =
     bind_result (parse_factor p n ts) (\<lambda>r. parse_term_rest p n (fst r) (snd r))"

primrec parse_sum_rest :: "pyexpr parser \<Rightarrow> nat \<Rightarrow> pyexpr \<Rightarrow> pyexpr parser" where
  "parse_sum_rest p 0 l ts = Inl Unmodelled"
| "parse_sum_rest p (Suc n) l ts =
     (if next_is (\<lambda>t. is_op t ''+'' \<or> is_op t ''-'') ts then
        bind_result (parse_term p n (tl ts)) (\<lambda>r.
          parse_sum_rest p n (BinOp l (if is_op (hd ts) ''+'' then Add else Sub) (fst r)) (snd r))
      else Inr (l, ts))"

definition parse_sum :: "pyexpr parser \<Rightarrow> nat \<Rightarrow> pyexpr parser" where
  "parse_sum p n ts =
     bind_result (parse_term p n ts) (\<lambda>r. parse_sum_rest p n (fst r) (snd r))"

primrec parse_expression :: "nat \<Rightarrow> pyexpr parser" where
  "parse_expression 0 ts = Inl Unmodelled"
| "parse_expression (Suc n) ts =
     bind_result (parse_sum (parse_expression n) n ts) (\<lambda>r1.
       if next_is (\<lambda>t. is_kw t ''if'') (snd r1) then
         bind_result (parse_sum (parse_expression n) n (tl (snd r1))) (\<lambda>r2.
           if next_is (\<lambda>t. is_kw t ''else'') (snd r2) then
             bind_result (parse_expression n (tl (snd r2))) (\<lambda>r3.
               Inr (IfExp (fst r2) (fst r1) (fst r3), snd r3))
           else Inl Unmodelled)
       else Inr r1)"

text \<open>
  The parser of \<^verbatim>\<open>eval\<close> on the tokens of the text: comments and line breaks inside
  brackets are no tokens for it, and the expression must be all of the line.
\<close>

definition py_parse :: "token list \<Rightarrow> exc + pyexpr" where
  "py_parse toks =
     (let ts = filter (\<lambda>t. tok_type t \<noteq> NL \<and> tok_type t \<noteq> COMMENT) toks in
      case parse_expression (10 * length ts + 10) ts of
        Inl e \<Rightarrow> Inl e
      | Inr (e, rest) \<Rightarrow>
          if rest \<noteq> [] \<and> (\<forall>t \<in> set rest. tok_type t = NEWLINE \<or> tok_type t = ENDMARKER)
          then Inr e else Inl Unmodelled)"

text \<open>Truth value testing.\<close>

fun truthy :: "obj \<Rightarrow> bool" where
  "truthy (Val (VBool b)) = b"
| "truthy (Val (VInt n)) = (n \<noteq> 0)"
| "truthy (Val VNone) = False"
| "truthy (Val (VStr s)) = (s \<noteq> [])"
| "truthy (Val (VTuple vs)) = (vs \<noteq> [])"
| "truthy (Dict d) = (d \<noteq> [])"
| "truthy _ = True"

text \<open>
  A name is looked up in the globals and then in the builtins, which \<^verbatim>\<open>eval\<close> finds
  under the key \<^verbatim>\<open>__builtins__\<close> of the globals.
\<close>

definition lookup_name :: "(string \<rightharpoonup> obj) \<Rightarrow> string \<Rightarrow> exc + obj" where
  "lookup_name env x =
     (case env x of
        Some v \<Rightarrow> Inr v
      | None \<Rightarrow>
          (case env ''__builtins__'' of
             Some (Dict d) \<Rightarrow>
               (case map_of d x of Some v \<Rightarrow> Inr v | None \<Rightarrow> Inl (NameError (Some x)))
           | _ \<Rightarrow> Inl Unmodelled))"

definition binop_apply :: "binop \<Rightarrow> obj \<Rightarrow> obj \<Rightarrow> exc + obj" where
  "binop_apply op l r =
     (case (l, r) of
        (Val (VInt a), Val (VInt b)) \<Rightarrow>
          Inr (Val (VInt (case op of Add \<Rightarrow> a + b | Sub \<Rightarrow> a - b | Mult \<Rightarrow> a * b)))
      | _ \<Rightarrow> Inl Unmodelled)"

text \<open>Calling a function object that is not a closure of \<^verbatim>\<open>SupplyImpliedArguments\<close>.\<close>

fun call_function :: "obj \<Rightarrow> pval list \<Rightarrow> (string \<times> pval) list \<Rightarrow> exc + pval" where
  "call_function (Function co kwd f) args kwargs = f args kwargs"
| "call_function (Builtin f) args kwargs = f args kwargs"
| "call_function (Val v) args kwargs = Inl TypeError"
| "call_function (Dict d) args kwargs = Inl TypeError"
| "call_function (Supplier fn) args kwargs = Inl Unmodelled"

fun is_Val :: "obj \<Rightarrow> bool" where
  "is_Val (Val v) = True"
| "is_Val _ = False"

fun the_Val :: "obj \<Rightarrow> pval" where
  "the_Val (Val v) = v"
| "the_Val _ = VNone"

text \<open>\<^verbatim>\<open>d.update(kwargs)\<close> and \<^verbatim>\<open>d[k] = v\<close> on a dictionary kept in insertion order.\<close>

definition dict_update :: "(string \<times> 'v) list \<Rightarrow> (string \<times> 'v) list \<Rightarrow> (string \<times> 'v) list" where
  "dict_update d kwargs = fold (\<lambda>kv d. AList.update (fst kv) (snd kv) d) kwargs d"

text \<open>
  \<^verbatim>\<open>supply_namespace_args\<close>, the closure inside \<^verbatim>\<open>SupplyImpliedArguments\<close> (lines 89 to
  95), for the function \<open>fn\<close> and the namespace it closes over. A function can be passed
  plain values only, so a namespace entry that is not one is outside the model.
\<close>

definition supply_namespace_args ::
  "obj \<Rightarrow> (string \<rightharpoonup> obj) \<Rightarrow> pval list \<Rightarrow> (string \<times> pval) list \<Rightarrow> exc + pval" where
  "supply_namespace_args fn namespace args kwargs =
     (let iargs = ImpliedArguments fn in
      if \<exists>iarg \<in> set iargs. namespace iarg = None
      then Inl (PinasNameError (set (filter (\<lambda>iarg. namespace iarg = None) iargs)))
      else if \<exists>iarg \<in> set iargs. \<not> is_Val (the (namespace iarg)) then Inl Unmodelled
      else
        let full_kwargs =
              fold (\<lambda>iarg d. AList.update iarg (the_Val (the (namespace iarg))) d) iargs []
        in call_function fn args (dict_update full_kwargs kwargs))"

text \<open>\<^verbatim>\<open>SupplyImpliedArguments\<close> (lines 84 to 96).\<close>

definition SupplyImpliedArguments :: "obj \<Rightarrow> obj" where
  "SupplyImpliedArguments fn = (if length (ImpliedArguments fn) = 0 then fn else Supplier fn)"

text \<open>
  Calling an object inside \<^verbatim>\<open>eval\<close> with globals \<open>env\<close>. The closures of
  \<^verbatim>\<open>SupplyImpliedArguments\<close> are made by \<open>effective_namespace\<close> only, which stores them
  in the very dictionary they close over, and that dictionary is the globals of the
  evaluation: a closure reads its namespace from \<open>env\<close>.
\<close>

definition call_object ::
  "(string \<rightharpoonup> obj) \<Rightarrow> obj \<Rightarrow> pval list \<Rightarrow> (string \<times> pval) list \<Rightarrow> exc + obj" where
  "call_object env f args kwargs =
     (case (case f of
              Supplier fn \<Rightarrow> supply_namespace_args fn env args kwargs
            | _ \<Rightarrow> call_function f args kwargs) of
        Inl e \<Rightarrow> Inl e
      | Inr v \<Rightarrow> Inr (Val v))"

text \<open>
  Evaluation: operands left to right, the function before its arguments, positional
  arguments before keyword arguments, and of a conditional expression only the branch
  that the test selects.
\<close>

fun eval_expr :: "(string \<rightharpoonup> obj) \<Rightarrow> pyexpr \<Rightarrow> exc + obj"
  and eval_args :: "(string \<rightharpoonup> obj) \<Rightarrow> pyexpr list \<Rightarrow> exc + pval list"
  and eval_keywords :: "(string \<rightharpoonup> obj) \<Rightarrow> (string \<times> pyexpr) list \<Rightarrow> exc + (string \<times> pval) list"
where
  "eval_expr env (Constant v) = Inr (Val v)"
| "eval_expr env (Name x) = lookup_name env x"
| "eval_expr env (UnaryMinus e) =
     (case eval_expr env e of
        Inl x \<Rightarrow> Inl x
      | Inr (Val (VInt n)) \<Rightarrow> Inr (Val (VInt (- n)))
      | Inr _ \<Rightarrow> Inl Unmodelled)"
| "eval_expr env (BinOp l op r) =
     (case eval_expr env l of
        Inl x \<Rightarrow> Inl x
      | Inr lv \<Rightarrow>
          (case eval_expr env r of
             Inl x \<Rightarrow> Inl x
           | Inr rv \<Rightarrow> binop_apply op lv rv))"
| "eval_expr env (IfExp test body orelse) =
     (case eval_expr env test of
        Inl x \<Rightarrow> Inl x
      | Inr c \<Rightarrow> if truthy c then eval_expr env body else eval_expr env orelse)"
| "eval_expr env (Call f args kws) =
     (case eval_expr env f of
        Inl x \<Rightarrow> Inl x
      | Inr fo \<Rightarrow>
          (case eval_args env args of
             Inl x \<Rightarrow> Inl x
           | Inr avs \<Rightarrow>
               (case eval_keywords env kws of
                  Inl x \<Rightarrow> Inl x
                | Inr kvs \<Rightarrow> call_object env fo avs kvs)))"
| "eval_args env [] = Inr []"
| "eval_args env (a # as) =
     (case eval_expr env a of
        Inl x \<Rightarrow> Inl x
      | Inr (Val v) \<Rightarrow>
          (case eval_args env as of Inl x \<Rightarrow> Inl x | Inr vs \<Rightarrow> Inr (v # vs))
      | Inr _ \<Rightarrow> Inl Unmodelled)"
| "eval_keywords env [] = Inr []"
| "eval_keywords env ((k, a) # kws) =
     (case eval_expr env a of
        Inl x \<Rightarrow> Inl x
      | Inr (Val v) \<Rightarrow>
          (case eval_keywords env kws of Inl x \<Rightarrow> Inl x | Inr vs \<Rightarrow> Inr ((k, v) # vs))
      | Inr _ \<Rightarrow> Inl Unmodelled)"

text \<open>
  Python's \<^verbatim>\<open>eval(text, env)\<close>: the text is compiled first, so a syntax error comes
  before any evaluation.
\<close>

definition py_eval :: "string \<Rightarrow> (string \<rightharpoonup> obj) \<Rightarrow> exc + obj" where
  "py_eval text env =
     (case generate_tokens text of
        None \<Rightarrow> Inl Unmodelled
      | Some (toks, Some x) \<Rightarrow> Inl SyntaxError
      | Some (toks, None) \<Rightarrow>
          (case py_parse toks of
             Inl x \<Rightarrow> Inl x
           | Inr e \<Rightarrow> eval_expr env e))"


subsection \<open>Expression: \<^verbatim>\<open>effective_namespace\<close> and \<^verbatim>\<open>eval\<close>\<close>

text \<open>
  Lines 241 to 243: every function with implied arguments that the environment holds
  is replaced by its closure.
\<close>

fun supply_all :: "(string \<times> obj) list \<Rightarrow> (string \<rightharpoonup> obj) \<Rightarrow> (string \<rightharpoonup> obj)" where
  "supply_all [] eff_namespace = eff_namespace"
| "supply_all ((n, fn) # rest) eff_namespace =
     supply_all rest
       (if eff_namespace n \<noteq> None then eff_namespace(n \<mapsto> SupplyImpliedArguments fn)
        else eff_namespace)"

text \<open>
  \<^verbatim>\<open>effective_namespace\<close>. The first loop (lines 234 to 240) runs over the set of free
  variables; a turn adds the key \<open>n\<close> only, so the test \<^verbatim>\<open>n in eff_namespace\<close> of a
  later turn sees the keys of the base namespace and other free variables, and it holds
  exactly when \<open>n\<close> is a key of the base namespace. When no turn raises, the loop has
  copied the caller's values of the free variables.
\<close>

definition effective_namespace :: "Expression \<Rightarrow> (string \<rightharpoonup> obj) \<Rightarrow> exc + (string \<rightharpoonup> obj)" where
  "effective_namespace e namespace =
     (if \<exists>n \<in> free_variables e. base_namespace e n \<noteq> None
      then Inl (ValueError_ambiguous {n \<in> free_variables e. base_namespace e n \<noteq> None})
      else
        Inr (supply_all (SupplyImpliedArguments_for (backend_of e))
               (base_namespace e ++ (namespace |` free_variables e))))"

text \<open>
  The \<^verbatim>\<open>except NameError\<close> clause of \<^verbatim>\<open>eval\<close> (lines 256 to 263) on the outcome of
  the evaluation: \<^verbatim>\<open>getattr(exc, 'name', None) in missing\<close> is false for an exception
  without a name.
\<close>

definition except_NameError :: "string set \<Rightarrow> exc + obj \<Rightarrow> exc + obj" where
  "except_NameError missing r =
     (case r of
        Inl (NameError nm) \<Rightarrow>
          if (case nm of None \<Rightarrow> False | Some n \<Rightarrow> n \<in> missing)
          then Inl (PinasNameError missing)
          else Inl (NameError nm)
      | _ \<Rightarrow> r)"

text \<open>
  \<^verbatim>\<open>Expression.eval\<close> over an evaluator \<open>ev\<close> for Python's builtin \<^verbatim>\<open>eval\<close>
  (lines 253 to 263).
\<close>

definition Expression_eval_with ::
  "(string \<Rightarrow> (string \<rightharpoonup> obj) \<Rightarrow> exc + obj) \<Rightarrow> Expression \<Rightarrow> (string \<rightharpoonup> obj) \<Rightarrow> exc + obj" where
  "Expression_eval_with ev e namespace =
     (case effective_namespace e namespace of
        Inl x \<Rightarrow> Inl x
      | Inr eff_namespace \<Rightarrow>
          except_NameError {ident \<in> free_variables e. namespace ident = None}
            (ev (expr e) eff_namespace))"

text \<open>\<^verbatim>\<open>Expression.eval\<close> with the evaluator of this theory.\<close>

definition Expression_eval :: "Expression \<Rightarrow> (string \<rightharpoonup> obj) \<Rightarrow> exc + obj" where
  "Expression_eval = Expression_eval_with py_eval"

text \<open>
  The two calls of a host, as in \<^verbatim>\<open>samples/pc.py\<close> and the tests: construct the
  expression, then evaluate it.
\<close>

definition compile_and_eval :: "Backend \<Rightarrow> string \<Rightarrow> (string \<rightharpoonup> obj) \<Rightarrow> exc + obj" where
  "compile_and_eval backend text namespace =
     (case Expression_init backend text of
        Inl x \<Rightarrow> Inl x
      | Inr e \<Rightarrow> Expression_eval e namespace)"


subsection \<open>Notions the properties are stated with\<close>

text \<open>
  The token that the loop has in \<open>prev\<close> after a run of tokens: the last one that was
  kept, or the one it had before.
\<close>

fun last_kept :: "token option \<Rightarrow> token list \<Rightarrow> token option" where
  "last_kept p [] = p"
| "last_kept p (t # ts) = last_kept (if dropped_type (tok_type t) then p else Some t) ts"

text \<open>No operator token is empty: true of what a tokenizer yields.\<close>

definition operators_nonempty :: "token list \<Rightarrow> bool" where
  "operators_nonempty toks = (\<forall>t \<in> set toks. tok_type t = OP \<longrightarrow> tok_string t \<noteq> [])"

text \<open>
  The names an expression refers to: its identifiers that do not follow a dot, given
  the kept token before the run.
\<close>

fun referenced_names :: "token option \<Rightarrow> token list \<Rightarrow> string set" where
  "referenced_names p [] = {}"
| "referenced_names p (t # ts) =
     (if tok_type t = NAME \<and> \<not> (p \<noteq> None \<and> tok_string (the p) = ''.'')
      then {tok_string t} else {})
     \<union> referenced_names (if dropped_type (tok_type t) then p else Some t) ts"

text \<open>
  The names that are eligible as named parameters of some function the tokens refer to.
\<close>

definition eligible_named_parameters :: "Backend \<Rightarrow> token list \<Rightarrow> string set" where
  "eligible_named_parameters backend toks =
     (\<Union>n \<in> referenced_names None toks.
        case named_parameter_names_for backend n of None \<Rightarrow> {} | Some ps \<Rightarrow> ps)"

text \<open>
  The normalised text as the specification describes it, before it is stripped: in
  front of each token the gap to the end of the last kept token (nothing when the
  token starts there, the column distance in blanks on the same line, two blanks on
  another line), then the text of the token unless it is a comment or layout.
\<close>

definition gap_text :: "nat \<times> nat \<Rightarrow> nat \<times> nat \<Rightarrow> string" where
  "gap_text pe start =
     (if start = pe then []
      else if fst start = fst pe then replicate (snd start - snd pe) CHR '' ''
      else ''  '')"

fun normal_text :: "nat \<times> nat \<Rightarrow> token list \<Rightarrow> string" where
  "normal_text pe [] = []"
| "normal_text pe (t # ts) =
     gap_text pe (tok_start t) @
       (if dropped_type (tok_type t) then normal_text pe ts
        else tok_string t @ normal_text (tok_end t) ts)"

text \<open>
  An object whose calls never raise \<open>PinasExpressionError\<close>, and an environment of such
  objects.
\<close>

definition raises_expression_error ::
  "(pval list \<Rightarrow> (string \<times> pval) list \<Rightarrow> exc + pval) \<Rightarrow> bool" where
  "raises_expression_error f = (\<exists>args kwargs t m. f args kwargs = Inl (PinasExpressionError t m))"

fun quiet :: "obj \<Rightarrow> bool" where
  "quiet (Val v) = True"
| "quiet (Function co kwd f) = (\<not> raises_expression_error f)"
| "quiet (Builtin f) = (\<not> raises_expression_error f)"
| "quiet (Supplier fn) = quiet fn"
| "quiet (Dict d) = (\<forall>kv \<in> set d. quiet (snd kv))"

definition quiet_env :: "(string \<rightharpoonup> obj) \<Rightarrow> bool" where
  "quiet_env env = (\<forall>n v. env n = Some v \<longrightarrow> quiet v)"

definition quiet_backend :: "Backend \<Rightarrow> bool" where
  "quiet_backend backend =
     (quiet_env (predefined_functions backend)
      \<and> (\<forall>nf \<in> set (SupplyImpliedArguments_for backend). quiet (snd nf)))"

text \<open>A parser that fails with nothing but \<open>SyntaxError\<close> or \<open>Unmodelled\<close>.\<close>

definition parse_failure :: "exc \<Rightarrow> bool" where
  "parse_failure x = (x = SyntaxError \<or> x = Unmodelled)"

definition fails_as_parser :: "'a parser \<Rightarrow> bool" where
  "fails_as_parser p = (\<forall>ts x. p ts = Inl x \<longrightarrow> parse_failure x)"

text \<open>An outcome that is not a \<open>PinasExpressionError\<close>.\<close>

definition no_expression_error :: "exc + 'a \<Rightarrow> bool" where
  "no_expression_error r = (\<forall>t m. r \<noteq> Inl (PinasExpressionError t m))"


subsection \<open>Hosts: the builtins, the module of the tests, other modules\<close>

text \<open>
  Python's \<^verbatim>\<open>builtins\<close> module at the names of \<open>default_allow_builtin_names\<close>. The
  three constants are values; the others are builtin functions and types, objects
  without \<^verbatim>\<open>__code__\<close>. Of their behaviour only \<^verbatim>\<open>abs\<close> on an integer is modelled.
\<close>

definition builtin_abs :: "pval list \<Rightarrow> (string \<times> pval) list \<Rightarrow> exc + pval" where
  "builtin_abs args kwargs =
     (case (args, kwargs) of
        ([VInt n], []) \<Rightarrow> Inr (VInt (abs n))
      | _ \<Rightarrow> Inl Unmodelled)"

definition builtin_unmodelled :: "pval list \<Rightarrow> (string \<times> pval) list \<Rightarrow> exc + pval" where
  "builtin_unmodelled args kwargs = Inl Unmodelled"

definition py_builtins :: "string \<rightharpoonup> obj" where
  "py_builtins n =
     (if n = ''False'' then Some (Val (VBool False))
      else if n = ''None'' then Some (Val VNone)
      else if n = ''True'' then Some (Val (VBool True))
      else if n = ''abs'' then Some (Builtin builtin_abs)
      else if n \<in> default_allow_builtin_names then Some (Builtin builtin_unmodelled)
      else None)"

text \<open>
  The module of \<^verbatim>\<open>src/test/test_pinas.py\<close> (lines 5 to 35). A call binds its
  arguments as Python does for a function without \<^verbatim>\<open>*args\<close>, \<^verbatim>\<open>**kwargs\<close> and
  positional defaults; \<open>bind_arguments\<close> answers \<open>TypeError\<close> where Python does.
\<close>

definition bind_arguments ::
  "code \<Rightarrow> (string \<times> pval) list \<Rightarrow> pval list \<Rightarrow> (string \<times> pval) list \<Rightarrow> exc + (string \<rightharpoonup> pval)" where
  "bind_arguments co kwdefaults args kwargs =
     (let positional = take (co_argcount co) (co_varnames co);
          posonly = take (co_posonlyargcount co) (co_varnames co);
          kwonly = slice (co_varnames co) (co_argcount co) (co_argcount co + co_kwonlyargcount co);
          given = take (length args) positional
      in
      if length args > co_argcount co then Inl TypeError
      else if \<exists>k \<in> fst ` set kwargs. k \<in> set posonly \<or> k \<notin> set (positional @ kwonly) then Inl TypeError
      else if \<exists>k \<in> fst ` set kwargs. k \<in> set given then Inl TypeError
      else
        let bound = map_of (zip given args @ kwargs @ kwdefaults) in
        if \<exists>n \<in> set (positional @ kwonly). bound n = None then Inl TypeError
        else Inr bound)"

definition py_function ::
  "code \<Rightarrow> (string \<times> pval) list option \<Rightarrow> ((string \<Rightarrow> pval) \<Rightarrow> exc + pval) \<Rightarrow> obj" where
  "py_function co kwd body =
     Function co kwd (\<lambda>args kwargs.
       case bind_arguments co (case kwd of None \<Rightarrow> [] | Some d \<Rightarrow> d) args kwargs of
         Inl e \<Rightarrow> Inl e
       | Inr bound \<Rightarrow> body (\<lambda>n. the (bound n)))"

text \<open>\<^verbatim>\<open>x + y\<close> on two integers; other operands are not modelled.\<close>

definition py_add :: "pval \<Rightarrow> pval \<Rightarrow> exc + pval" where
  "py_add a b = (case (a, b) of (VInt x, VInt y) \<Rightarrow> Inr (VInt (x + y)) | _ \<Rightarrow> Inl Unmodelled)"

definition mk_code :: "string list \<Rightarrow> nat \<Rightarrow> nat \<Rightarrow> nat \<Rightarrow> code" where
  "mk_code vs po ac kc =
     \<lparr> co_varnames = vs, co_posonlyargcount = po, co_argcount = ac, co_kwonlyargcount = kc \<rparr>"

text \<open>\<^verbatim>\<open>def add(x,y): return x+y\<close>\<close>

definition test_add :: obj where
  "test_add = py_function (mk_code [''x'', ''y''] 0 2 0) None (\<lambda>v. py_add (v ''x'') (v ''y''))"

text \<open>\<^verbatim>\<open>def add_d(x,*,d): return x+d\<close>\<close>

definition test_add_d :: obj where
  "test_add_d = py_function (mk_code [''x'', ''d''] 0 1 1) None (\<lambda>v. py_add (v ''x'') (v ''d''))"

text \<open>\<^verbatim>\<open>def oct(x): return x=='octavian'\<close>\<close>

definition test_oct :: obj where
  "test_oct = py_function (mk_code [''x''] 0 1 0) None (\<lambda>v. Inr (VBool (v ''x'' = VStr ''octavian'')))"

text \<open>\<^verbatim>\<open>def bit_length(): return 42\<close>\<close>

definition test_bit_length :: obj where
  "test_bit_length = py_function (mk_code [] 0 0 0) None (\<lambda>v. Inr (VInt 42))"

text \<open>\<^verbatim>\<open>def pos_only(x,/,y,z,*,p=0): return x+y+z+p\<close>\<close>

definition test_pos_only :: obj where
  "test_pos_only =
     py_function (mk_code [''x'', ''y'', ''z'', ''p''] 1 3 1) (Some [(''p'', VInt 0)])
       (\<lambda>v. bind_result (py_add (v ''x'') (v ''y'')) (\<lambda>s.
               bind_result (py_add s (v ''z'')) (\<lambda>s'. py_add s' (v ''p''))))"

text \<open>\<^verbatim>\<open>def implied(x,*,b): return (x,b)\<close>\<close>

definition test_implied :: obj where
  "test_implied = py_function (mk_code [''x'', ''b''] 0 1 1) None (\<lambda>v. Inr (VTuple [v ''x'', v ''b'']))"

text \<open>\<^verbatim>\<open>def implied_name_collision(a,*,b): return (a,b)\<close>\<close>

definition test_implied_name_collision :: obj where
  "test_implied_name_collision =
     py_function (mk_code [''a'', ''b''] 0 1 1) None (\<lambda>v. Inr (VTuple [v ''a'', v ''b'']))"

text \<open>\<^verbatim>\<open>def name_collision(a,b): return (a,b)\<close>\<close>

definition test_name_collision :: obj where
  "test_name_collision =
     py_function (mk_code [''a'', ''b''] 0 2 0) None (\<lambda>v. Inr (VTuple [v ''a'', v ''b'']))"

definition test_module :: module where
  "test_module =
     \<lparr> module_all = [''add'', ''add_d'', ''oct'', ''bit_length'', ''pos_only'', ''implied'',
                      ''name_collision'', ''implied_name_collision''],
       module_getattr =
         [''add'' \<mapsto> test_add, ''add_d'' \<mapsto> test_add_d, ''oct'' \<mapsto> test_oct,
          ''bit_length'' \<mapsto> test_bit_length, ''pos_only'' \<mapsto> test_pos_only,
          ''implied'' \<mapsto> test_implied, ''name_collision'' \<mapsto> test_name_collision,
          ''implied_name_collision'' \<mapsto> test_implied_name_collision] \<rparr>"

text \<open>\<^verbatim>\<open>backend = pinas.Backend(module=module)\<close> (test_pinas.py, line 36).\<close>

definition test_backend_result :: "exc + Backend" where
  "test_backend_result = Backend_init py_builtins test_module None None None"

text \<open>The constructor returns (see \<open>test_backend_constructed\<close>); this is the object.\<close>

definition test_backend :: Backend where
  "test_backend = projr test_backend_result"

text \<open>
  A host module that exports one function under the name \<^verbatim>\<open>exec\<close>:
  \<^verbatim>\<open>def exec(x): return x\<close>.
\<close>

definition exec_module :: module where
  "exec_module =
     \<lparr> module_all = [''exec''],
       module_getattr = [''exec'' \<mapsto> py_function (mk_code [''x''] 0 1 0) None (\<lambda>v. Inr (v ''x''))] \<rparr>"

text \<open>
  A host module with the function of the claim about implied parameters under the name
  \<^verbatim>\<open>f\<close>: \<^verbatim>\<open>def f(x,*,d): return x+d\<close>.
\<close>

definition f_module :: module where
  "f_module = \<lparr> module_all = [''f''], module_getattr = [''f'' \<mapsto> test_add_d] \<rparr>"

definition f_backend_result :: "exc + Backend" where
  "f_backend_result = Backend_init py_builtins f_module None None None"

definition f_backend :: Backend where
  "f_backend = projr f_backend_result"

text \<open>
  A host module that lists \<^verbatim>\<open>__builtins__\<close> in its \<^verbatim>\<open>__all__\<close>; the attribute of a
  module with that name is the dictionary of the builtins.
\<close>

definition builtins_module :: module where
  "builtins_module =
     \<lparr> module_all = [''__builtins__''],
       module_getattr = [''__builtins__'' \<mapsto> Dict [(''open'', Builtin builtin_unmodelled)]] \<rparr>"

definition builtins_backend :: Backend where
  "builtins_backend = projr (Backend_init py_builtins builtins_module None None None)"

text \<open>The expression text \<^verbatim>\<open>f'{a.real}'\<close>: an f-string with an attribute access inside.\<close>

definition fstring_attribute :: string where
  "fstring_attribute = ''f'' @ [CHR 0x27] @ ''{a.real}'' @ [CHR 0x27]"


section \<open>Properties\<close>

subsection \<open>The loop over the tokens\<close>

lemma scan_tokens_append:
  "scan_tokens b s (xs @ ys) =
     (case scan_tokens b s xs of Inl e \<Rightarrow> Inl e | Inr s' \<Rightarrow> scan_tokens b s' ys)"
  by (induction xs arbitrary: s) (auto split: sum.splits)

lemma check_token_frame:
  "check_token b s t = Inr s' \<Longrightarrow>
     prev s' = prev s \<and> prev_end s' = prev_end s \<and> net_toks s' = net_toks s
       \<and> net_expr s' = net_expr s"
  by (auto simp: check_token_def split: if_splits)

lemma scan_token_prev:
  "scan_token b s t = Inr s' \<Longrightarrow> prev s' = (if dropped_type (tok_type t) then prev s else Some t)"
  by (auto simp: scan_token_def keep_token_def split: sum.splits dest!: check_token_frame)

lemma scan_tokens_prev:
  "scan_tokens b s toks = Inr s' \<Longrightarrow> prev s' = last_kept (prev s) toks"
proof (induction toks arbitrary: s)
  case Nil
  then show ?case by simp
next
  case (Cons t toks)
  then show ?case
    by (auto split: sum.splits dest!: scan_token_prev)
qed

lemma check_token_error_kind:
  "check_token b s t = Inl e \<Longrightarrow>
     (\<exists>t' m. e = PinasExpressionError t' m) \<or> (tok_type t = OP \<and> tok_string t = [] \<and> e = IndexError)"
  by (auto simp: check_token_def split: if_splits)

lemma scan_token_error_kind:
  "scan_token b s t = Inl e \<Longrightarrow>
     (\<exists>t' m. e = PinasExpressionError t' m) \<or> (tok_type t = OP \<and> tok_string t = [] \<and> e = IndexError)"
  by (auto simp: scan_token_def split: sum.splits dest: check_token_error_kind)

lemma scan_tokens_error_kind:
  "operators_nonempty toks \<Longrightarrow> scan_tokens b s toks = Inl e \<Longrightarrow> \<exists>t' m. e = PinasExpressionError t' m"
proof (induction toks arbitrary: s)
  case Nil
  then show ?case by simp
next
  case (Cons t toks)
  show ?case
  proof (cases "scan_token b s t")
    case (Inl x)
    with Cons.prems show ?thesis
      by (auto simp: operators_nonempty_def dest: scan_token_error_kind)
  next
    case (Inr s')
    with Cons show ?thesis by (auto simp: operators_nonempty_def)
  qed
qed

lemma Expression_init_tokens_Inl:
  "scan_tokens b scan_start toks = Inl e \<Longrightarrow> Expression_init_tokens b (toks, raised) = Inl e"
  by (simp add: Expression_init_tokens_def)

lemma scan_token_illegal_method:
  assumes "tok_type tok = NAME" and "prev s = Some p" and "tok_string p = ''.''"
    and "tok_string tok \<notin> allow_methods b"
  shows "scan_token b s tok = Inl (PinasExpressionError tok (''Illegal method .'' @ tok_string tok))"
  using assms by (simp add: scan_token_def check_token_def)

lemma last_kept_append: "last_kept p (xs @ ys) = last_kept (last_kept p xs) ys"
  by (induction xs arbitrary: p) auto

lemma referenced_names_append:
  "referenced_names p (xs @ ys) = referenced_names p xs \<union> referenced_names (last_kept p xs) ys"
  by (induction xs arbitrary: p) auto

lemma scan_token_available:
  "scan_token b s t = Inr s' \<Longrightarrow>
     available_named_parameter_names s' =
       available_named_parameter_names s \<union>
         (\<Union>n \<in> referenced_names (prev s) [t].
            case named_parameter_names_for b n of None \<Rightarrow> {} | Some ps \<Rightarrow> ps)"
  by (auto simp: scan_token_def check_token_def keep_token_def split: sum.splits if_splits)

lemma scan_tokens_available:
  "scan_tokens b s toks = Inr s' \<Longrightarrow>
     available_named_parameter_names s' =
       available_named_parameter_names s \<union>
         (\<Union>n \<in> referenced_names (prev s) toks.
            case named_parameter_names_for b n of None \<Rightarrow> {} | Some ps \<Rightarrow> ps)"
proof (induction toks arbitrary: s)
  case Nil
  then show ?case by simp
next
  case (Cons t toks)
  from Cons.prems obtain s1 where s1: "scan_token b s t = Inr s1"
    and rest: "scan_tokens b s1 toks = Inr s'"
    by (auto split: sum.splits)
  have p1: "prev s1 = (if dropped_type (tok_type t) then prev s else Some t)"
    using scan_token_prev [OF s1] .
  have split: "referenced_names (prev s) (t # toks)
                 = referenced_names (prev s) [t] \<union> referenced_names (prev s1) toks"
    using referenced_names_append [of "prev s" "[t]" toks] p1 by simp
  show ?case
    unfolding Cons.IH [OF rest] scan_token_available [OF s1] split by blast
qed

lemma scan_start_available:
  "scan_tokens b scan_start toks = Inr s \<Longrightarrow>
     available_named_parameter_names s = eligible_named_parameters b toks"
  using scan_tokens_available [of b scan_start toks s]
  by (simp add: scan_start_def eligible_named_parameters_def)

lemma eligible_named_parameters_prefix:
  "eligible_named_parameters b pre \<subseteq> eligible_named_parameters b (pre @ post)"
  by (auto simp: eligible_named_parameters_def referenced_names_append)

lemma scan_token_bare_assignment:
  assumes "tok_type tok = OP" and "tok_string tok = ''=''"
    and "\<not> (\<exists>p. prev s = Some p \<and> tok_type p = NAME
               \<and> tok_string p \<in> available_named_parameter_names s)"
  shows "\<exists>m. scan_token b s tok = Inl (PinasExpressionError tok m)"
  using assms by (auto simp: scan_token_def check_token_def)

lemma scan_token_assignment_operator:
  assumes "tok_type tok = OP" and "tok_string tok \<noteq> []" and "last (tok_string tok) = CHR ''=''"
    and "tok_string tok \<notin> {''='', ''=='', ''!='', ''<='', ''>=''}"
  shows "scan_token b s tok = Inl (PinasExpressionError tok (''Illegal operator '' @ tok_string tok))"
  using assms by (simp add: scan_token_def check_token_def)

lemma scan_token_comparison:
  assumes "tok_type tok = OP" and "tok_string tok \<in> {''=='', ''!='', ''<='', ''>=''}"
  shows "\<exists>s'. scan_token b s tok = Inr s'"
  using assms by (auto simp: scan_token_def check_token_def)

lemma scan_tokens_rejected_at:
  assumes wf: "operators_nonempty pre"
    and rej: "\<And>s. scan_tokens b scan_start pre = Inr s \<Longrightarrow> \<exists>t m. scan_token b s tok = Inl (PinasExpressionError t m)"
  shows "\<exists>t m. Expression_init_tokens b (pre @ tok # post, raised) = Inl (PinasExpressionError t m)"
proof (cases "scan_tokens b scan_start pre")
  case (Inl e)
  from scan_tokens_error_kind [OF wf Inl] Inl show ?thesis
    by (auto simp: scan_tokens_append Expression_init_tokens_def)
next
  case (Inr s)
  from rej [OF Inr] Inr show ?thesis
    by (auto simp: scan_tokens_append Expression_init_tokens_def)
qed

lemma layout_gap_text: "concat (layout_gap pe t) = gap_text pe (tok_start t)"
  by (simp add: layout_gap_def gap_text_def)

lemma scan_token_text:
  assumes "scan_token b s t = Inr s'"
  shows "concat (net_expr s') =
           concat (net_expr s) @ gap_text (prev_end s) (tok_start t)
             @ (if dropped_type (tok_type t) then [] else tok_string t)"
    and "prev_end s' = (if dropped_type (tok_type t) then prev_end s else tok_end t)"
    and "net_toks s' = net_toks s @ (if dropped_type (tok_type t) then [] else [t])"
proof -
  let ?s1 = "s\<lparr> net_expr := net_expr s @ layout_gap (prev_end s) t \<rparr>"
  from assms obtain s2 where c: "check_token b ?s1 t = Inr s2" and k: "s' = keep_token s2 t"
    by (auto simp: scan_token_def split: sum.splits)
  from check_token_frame [OF c]
  have f: "prev_end s2 = prev_end s" "net_toks s2 = net_toks s"
    "net_expr s2 = net_expr s @ layout_gap (prev_end s) t"
    by simp_all
  show "concat (net_expr s') =
           concat (net_expr s) @ gap_text (prev_end s) (tok_start t)
             @ (if dropped_type (tok_type t) then [] else tok_string t)"
    unfolding k by (simp add: keep_token_def f layout_gap_text)
  show "prev_end s' = (if dropped_type (tok_type t) then prev_end s else tok_end t)"
    unfolding k by (simp add: keep_token_def f)
  show "net_toks s' = net_toks s @ (if dropped_type (tok_type t) then [] else [t])"
    unfolding k by (simp add: keep_token_def f)
qed

lemma scan_tokens_text:
  "scan_tokens b s toks = Inr s' \<Longrightarrow>
     concat (net_expr s') = concat (net_expr s) @ normal_text (prev_end s) toks
       \<and> net_toks s' = net_toks s @ filter (\<lambda>t. \<not> dropped_type (tok_type t)) toks"
proof (induction toks arbitrary: s)
  case Nil
  then show ?case by simp
next
  case (Cons t toks)
  from Cons.prems obtain s1 where s1: "scan_token b s t = Inr s1"
    and rest: "scan_tokens b s1 toks = Inr s'"
    by (auto split: sum.splits)
  from Cons.IH [OF rest] scan_token_text [OF s1] show ?case
    by simp
qed

lemma Expression_init_tokens_text:
  assumes "Expression_init_tokens backend (toks, raised) = Inr e"
  shows "expr e = strip (normal_text (1, 0) toks)
       \<and> net_tokens e = filter (\<lambda>t. \<not> dropped_type (tok_type t)) toks"
proof -
  from assms obtain s where sc: "scan_tokens backend scan_start toks = Inr s"
    and fin: "finish_scan backend s = Inr e"
    by (cases "scan_tokens backend scan_start toks"; cases raised)
       (auto simp: Expression_init_tokens_def)
  from fin have e: "expr e = strip (concat (net_expr s))" "net_tokens e = net_toks s"
    by (auto simp: finish_scan_def Let_def split: if_splits)
  from scan_tokens_text [OF sc] e show ?thesis
    by (simp add: scan_start_def)
qed


subsection \<open>Reading off a computed result\<close>

lemma Inl_caseI: "(case x of Inl e \<Rightarrow> e = a | Inr _ \<Rightarrow> False) \<Longrightarrow> x = Inl a"
  by (cases x) auto

lemma Inr_Val_caseI: "(case x of Inr (Val v) \<Rightarrow> v = a | _ \<Rightarrow> False) \<Longrightarrow> x = Inr (Val a)"
  by (auto split: sum.splits obj.splits)

lemma not_isl_projr: "\<not> isl x \<Longrightarrow> x = Inr (projr x)"
  by (cases x) auto


subsection \<open>The backends of the examples\<close>

lemma default_names_safe: "default_allow_builtin_names \<inter> known_unsafe_builtins = {}"
  by code_simp

lemma py_builtins_default: "n \<in> default_allow_builtin_names \<Longrightarrow> py_builtins n \<noteq> None"
  by (simp add: py_builtins_def)

lemma Backend_init_default:
  assumes "\<forall>n \<in> set (module_all m). module_getattr m n \<noteq> None"
  shows "Backend_init py_builtins m None None None =
     Inr \<lparr> allow_methods = default_allow_methods,
           allow_keywords = default_allow_keywords,
           allow_keywords_and_methods = default_allow_keywords \<union> default_allow_methods,
           predefined_names = set (module_all m) \<union> default_allow_builtin_names,
           module_functions = module_getattr m |` set (module_all m),
           SupplyImpliedArguments_for =
             filter (\<lambda>(n, fn). length (ImpliedArguments fn) > 0)
               (map (\<lambda>n. (n, the ((module_getattr m |` set (module_all m)) n)))
                  (dict_keys_of (module_all m))),
           predefined_functions =
             (py_builtins |` default_allow_builtin_names) ++ (module_getattr m |` set (module_all m)),
           named_parameter_names_for =
             (map_option allowed_named_params \<circ> (py_builtins |` default_allow_builtin_names))
               ++ (map_option allowed_named_params \<circ> (module_getattr m |` set (module_all m))) \<rparr>"
  using assms by (simp add: Backend_init_def Let_def default_names_safe py_builtins_default)

lemma test_backend_constructed: "test_backend_result = Inr test_backend"
proof -
  have "\<forall>n \<in> set (module_all test_module). module_getattr test_module n \<noteq> None"
    by (simp add: test_module_def)
  from Backend_init_default [OF this] show ?thesis
    by (simp add: test_backend_def test_backend_result_def)
qed

lemma test_backend_methods: "allow_methods test_backend = default_allow_methods"
proof -
  have "\<forall>n \<in> set (module_all test_module). module_getattr test_module n \<noteq> None"
    by (simp add: test_module_def)
  from Backend_init_default [OF this] show ?thesis
    by (simp add: test_backend_def test_backend_result_def)
qed

lemma exec_unsafe: "''exec'' \<in> known_unsafe_builtins"
  by (simp add: known_unsafe_builtins_def)


subsection \<open>Compiled expressions\<close>

lemma add_implied_arg_sound:
  "fst pf \<subseteq> predefined_names b \<Longrightarrow> snd pf \<inter> predefined_names b = {} \<Longrightarrow>
     fst (add_implied_arg b a pf) \<subseteq> predefined_names b
       \<and> snd (add_implied_arg b a pf) \<inter> predefined_names b = {}"
  by (simp add: add_implied_arg_def)

lemma fold_add_implied_arg:
  "fst pf \<subseteq> predefined_names b \<Longrightarrow> snd pf \<inter> predefined_names b = {} \<Longrightarrow>
     fst (fold (add_implied_arg b) as pf) \<subseteq> predefined_names b
       \<and> snd (fold (add_implied_arg b) as pf) \<inter> predefined_names b = {}"
proof (induction as arbitrary: pf)
  case Nil
  then show ?case by simp
next
  case (Cons a as)
  from add_implied_arg_sound [OF Cons.prems, of a]
  have "fst (add_implied_arg b a pf) \<subseteq> predefined_names b"
    and "snd (add_implied_arg b a pf) \<inter> predefined_names b = {}"
    by simp_all
  from Cons.IH [OF this] show ?case by simp
qed

lemma add_implied_sound:
  "fst pf \<subseteq> predefined_names b \<Longrightarrow> snd pf \<inter> predefined_names b = {} \<Longrightarrow>
     fst (add_implied b l pf) \<subseteq> predefined_names b
       \<and> snd (add_implied b l pf) \<inter> predefined_names b = {}"
proof (induction l arbitrary: pf)
  case Nil
  then show ?case by simp
next
  case (Cons a l)
  obtain n fn where a: "a = (n, fn)" by (cases a)
  let ?pf = "if n \<in> fst pf then fold (add_implied_arg b) (ImpliedArguments fn) pf else pf"
  from fold_add_implied_arg [OF Cons.prems, of "ImpliedArguments fn"] Cons.prems
  have "fst ?pf \<subseteq> predefined_names b" and "snd ?pf \<inter> predefined_names b = {}"
    by (simp_all split: if_splits)
  from Cons.IH [OF this] show ?case
    by (simp add: a)
qed

lemma finish_scan_names:
  assumes "finish_scan b s = Inr e"
  shows "predefined_names_of e \<subseteq> predefined_names b"
    and "free_variables e \<inter> predefined_names b = {}"
    and "base_namespace e =
           [''__builtins__'' \<mapsto> Dict []] ++ (predefined_functions b |` predefined_names_of e)"
    and "\<forall>n \<in> predefined_names_of e. predefined_functions b n \<noteq> None"
    and "backend_of e = b"
proof -
  define pf where "pf = add_implied b (SupplyImpliedArguments_for b)
               ((unbound_names s \<inter> predefined_names b) - allow_keywords_and_methods b,
                unbound_names s - predefined_names b - allow_keywords_and_methods b)"
  have inv: "fst pf \<subseteq> predefined_names b \<and> snd pf \<inter> predefined_names b = {}"
    unfolding pf_def by (rule add_implied_sound) auto
  have fin: "finish_scan b s =
      (if \<exists>n \<in> fst pf. predefined_functions b n = None then Inl KeyError
       else Inr \<lparr> backend_of = b, expr = strip (concat (net_expr s)), net_tokens = net_toks s,
                   predefined_names_of = fst pf, free_variables = snd pf,
                   base_namespace =
                     [''__builtins__'' \<mapsto> Dict []] ++ (predefined_functions b |` fst pf) \<rparr>)"
    unfolding finish_scan_def pf_def Let_def ..
  from assms have nk: "\<not> (\<exists>n \<in> fst pf. predefined_functions b n = None)"
    unfolding fin by (simp split: if_splits)
  with assms have e: "e = \<lparr> backend_of = b, expr = strip (concat (net_expr s)), net_tokens = net_toks s,
                   predefined_names_of = fst pf, free_variables = snd pf,
                   base_namespace =
                     [''__builtins__'' \<mapsto> Dict []] ++ (predefined_functions b |` fst pf) \<rparr>"
    unfolding fin by simp
  show "predefined_names_of e \<subseteq> predefined_names b" using inv by (simp add: e)
  show "free_variables e \<inter> predefined_names b = {}" using inv by (simp add: e)
  show "base_namespace e =
           [''__builtins__'' \<mapsto> Dict []] ++ (predefined_functions b |` predefined_names_of e)"
    by (simp add: e)
  show "\<forall>n \<in> predefined_names_of e. predefined_functions b n \<noteq> None"
    using nk by (simp add: e)
  show "backend_of e = b" by (simp add: e)
qed


lemma Expression_init_tokens_finish:
  "Expression_init_tokens b stream = Inr e \<Longrightarrow> \<exists>s. finish_scan b s = Inr e"
  unfolding Expression_init_tokens_def
  by (cases "scan_tokens b scan_start (fst stream)"; cases "snd stream") auto

lemma compiled_base_dom:
  assumes "Expression_init_tokens b stream = Inr e"
  shows "base_namespace e n \<noteq> None \<longleftrightarrow> n = ''__builtins__'' \<or> n \<in> predefined_names_of e"
proof -
  from Expression_init_tokens_finish [OF assms] obtain s where s: "finish_scan b s = Inr e" ..
  have b: "base_namespace e =
           [''__builtins__'' \<mapsto> Dict []] ++ (predefined_functions b |` predefined_names_of e)"
    using finish_scan_names(3) [OF s] .
  have d: "dom (predefined_functions b |` predefined_names_of e) = predefined_names_of e"
    using finish_scan_names(4) [OF s] by auto
  have "dom (base_namespace e) = insert ''__builtins__'' (predefined_names_of e)"
    unfolding b dom_map_add d by simp
  then show ?thesis by (metis domIff insert_iff)
qed

lemma compiled_free_base:
  assumes "Expression_init_tokens b stream = Inr e" and "n \<in> free_variables e"
  shows "base_namespace e n \<noteq> None \<longleftrightarrow> n = ''__builtins__''"
proof -
  from Expression_init_tokens_finish [OF assms(1)] obtain s where s: "finish_scan b s = Inr e" ..
  from finish_scan_names(1,2) [OF s] assms(2) have "n \<notin> predefined_names_of e" by blast
  with compiled_base_dom [OF assms(1), of n] show ?thesis by simp
qed

lemma compiled_effective_namespace:
  assumes "Expression_init_tokens b stream = Inr e"
  shows "effective_namespace e ns =
           (if ''__builtins__'' \<in> free_variables e
            then Inl (ValueError_ambiguous {''__builtins__''})
            else Inr (supply_all (SupplyImpliedArguments_for (backend_of e))
                        (base_namespace e ++ (ns |` free_variables e))))"
proof (cases "''__builtins__'' \<in> free_variables e")
  case True
  from compiled_free_base [OF assms True] have bi: "base_namespace e ''__builtins__'' \<noteq> None"
    by simp
  have 1: "\<exists>n \<in> free_variables e. base_namespace e n \<noteq> None"
    using True bi by blast
  have 2: "{n \<in> free_variables e. base_namespace e n \<noteq> None} = {''__builtins__''}"
  proof (rule set_eqI)
    fix n
    show "n \<in> {n \<in> free_variables e. base_namespace e n \<noteq> None} \<longleftrightarrow> n \<in> {''__builtins__''}"
      using compiled_free_base [OF assms, of n] True by blast
  qed
  show ?thesis
    unfolding effective_namespace_def using True 1 2 by (simp only: if_True)
next
  case False
  have 1: "\<not> (\<exists>n \<in> free_variables e. base_namespace e n \<noteq> None)"
    using compiled_free_base [OF assms] False by blast
  show ?thesis
    unfolding effective_namespace_def using False 1 by (simp only: if_False)
qed

lemma effective_namespace_restrict:
  "effective_namespace e (ns |` free_variables e) = effective_namespace e ns"
  by (simp add: effective_namespace_def)

lemma Expression_eval_with_restrict:
  "Expression_eval_with ev e (ns |` free_variables e) = Expression_eval_with ev e ns"
proof -
  have "{ident \<in> free_variables e. (ns |` free_variables e) ident = None}
          = {ident \<in> free_variables e. ns ident = None}"
    by auto
  then show ?thesis
    unfolding Expression_eval_with_def effective_namespace_restrict by (simp only:)
qed

lemma Expression_init_projr:
  "\<not> isl (Expression_init b text) \<Longrightarrow>
     Expression_init_tokens b (the (generate_tokens text)) = Inr (projr (Expression_init b text))"
  by (cases "generate_tokens text") (auto simp: Expression_init_def dest: not_isl_projr)

lemma update_restrict_other: "n \<notin> F \<Longrightarrow> (ns(n \<mapsto> v)) |` F = ns |` F"
  by (auto simp: restrict_map_def)

lemma supply_all_None: "supply_all l env n = None \<longleftrightarrow> env n = None"
proof (induction l arbitrary: env)
  case Nil
  show ?case by simp
next
  case (Cons a l)
  obtain k fn where a: "a = (k, fn)" by (cases a)
  show ?case
    unfolding a supply_all.simps Cons.IH by simp
qed

lemma supply_all_other: "n \<notin> fst ` set l \<Longrightarrow> supply_all l env n = env n"
proof (induction l arbitrary: env)
  case Nil
  show ?case by simp
next
  case (Cons a l)
  obtain k fn where a: "a = (k, fn)" by (cases a)
  from Cons.prems have nk: "n \<noteq> k" and nl: "n \<notin> fst ` set l"
    by (simp_all add: a)
  show ?case
    unfolding a supply_all.simps Cons.IH [OF nl] using nk by simp
qed

lemma Backend_init_fields:
  assumes "Backend_init builtins m abn akw am = Inr b"
  shows "fst ` set (SupplyImpliedArguments_for b) \<subseteq> predefined_names b"
proof -
  from assms have
    "SupplyImpliedArguments_for b =
       filter (\<lambda>(n, fn). length (ImpliedArguments fn) > 0)
         (map (\<lambda>n. (n, the ((module_getattr m |` set (module_all m)) n))) (dict_keys_of (module_all m)))"
    and "predefined_names b =
       set (module_all m) \<union> (case abn of None \<Rightarrow> default_allow_builtin_names | Some s \<Rightarrow> s)"
    by (simp_all add: Backend_init_def Let_def split: if_splits) auto
  then show ?thesis by (auto simp: dict_keys_of_def)
qed

lemma lookup_name_unbound:
  "env x = None \<Longrightarrow> env ''__builtins__'' = Some (Dict []) \<Longrightarrow> lookup_name env x = Inl (NameError (Some x))"
  by (simp add: lookup_name_def)


subsection \<open>The evaluator\<close>

lemma py_eval_parsed:
  "generate_tokens text = Some (toks, None) \<Longrightarrow> py_parse toks = Inr ast \<Longrightarrow>
     py_eval text env = eval_expr env ast"
  by (simp add: py_eval_def)

lemma py_eval_builtins_name: "py_eval ''__builtins__'' env = lookup_name env ''__builtins__''"
proof -
  have t: "generate_tokens ''__builtins__'' =
             Some ([mk_token NAME ''__builtins__'' 1 0 12, mk_token NEWLINE [] 1 12 13,
                    mk_token ENDMARKER [] 2 0 0], None)"
    by code_simp
  have p: "py_parse [mk_token NAME ''__builtins__'' 1 0 12, mk_token NEWLINE [] 1 12 13,
                     mk_token ENDMARKER [] 2 0 0] = Inr (Name ''__builtins__'')"
    by code_simp
  from py_eval_parsed [OF t p] show ?thesis by simp
qed

lemma Expression_eval_parsed:
  assumes "effective_namespace e ns = Inr env"
    and "generate_tokens (expr e) = Some (toks, None)" and "py_parse toks = Inr ast"
  shows "Expression_eval e ns =
           except_NameError {ident \<in> free_variables e. ns ident = None} (eval_expr env ast)"
  unfolding Expression_eval_def Expression_eval_with_def assms(1) py_eval_parsed [OF assms(2,3)]
  by simp

lemma dict_update_Cons:
  "dict_update d (a # kwargs) = dict_update (AList.update (fst a) (snd a) d) kwargs"
  by (simp add: dict_update_def)

lemma map_of_dict_update:
  "map_of (dict_update d kwargs) = map_of d ++ map_of (rev kwargs)"
proof (induction kwargs arbitrary: d)
  case Nil
  show ?case by (simp add: dict_update_def)
next
  case (Cons a kwargs)
  have "map_of (AList.update (fst a) (snd a) d) = map_of d ++ map_of [a]"
    by (cases a) (simp add: AList.update_conv')
  then show ?case
    unfolding dict_update_Cons Cons.IH by (simp add: map_add_assoc)
qed

lemma map_of_dict_update_explicit:
  assumes "distinct (map fst kwargs)" and "map_of kwargs k = Some v"
  shows "map_of (dict_update d kwargs) k = Some v"
proof -
  from assms(2) have "(k, v) \<in> set (rev kwargs)"
    by (auto dest: map_of_SomeD)
  moreover from assms(1) have "distinct (map fst (rev kwargs))"
    by (simp add: rev_map [symmetric])
  ultimately have "map_of (rev kwargs) k = Some v"
    by (simp add: map_of_eq_Some_iff)
  then show ?thesis by (simp add: map_of_dict_update map_add_def)
qed

lemma map_of_dict_update_implied:
  assumes "k \<notin> fst ` set kwargs"
  shows "map_of (dict_update d kwargs) k = map_of d k"
proof -
  from assms have "map_of (rev kwargs) k = None"
    by (simp add: map_of_eq_None_iff)
  then show ?thesis by (simp add: map_of_dict_update map_add_def)
qed

lemma map_of_implied:
  "map_of (fold (\<lambda>iarg d. AList.update iarg (f iarg) d) iargs d0) k =
     (if k \<in> set iargs then Some (f k) else map_of d0 k)"
  by (induction iargs arbitrary: d0) (auto simp: AList.update_conv')


lemma supply_namespace_args_supplied:
  assumes "\<forall>iarg \<in> set (ImpliedArguments fn). \<exists>w. namespace iarg = Some (Val w)"
  shows "supply_namespace_args fn namespace args kwargs =
           call_function fn args
             (dict_update
                (fold (\<lambda>iarg d. AList.update iarg (the_Val (the (namespace iarg))) d)
                   (ImpliedArguments fn) [])
                kwargs)"
proof -
  from assms have 1: "\<not> (\<exists>iarg \<in> set (ImpliedArguments fn). namespace iarg = None)"
    by auto
  from assms have 2: "\<not> (\<exists>iarg \<in> set (ImpliedArguments fn). \<not> is_Val (the (namespace iarg)))"
    by auto
  show ?thesis
    unfolding supply_namespace_args_def Let_def using 1 2 by (simp only: if_False)
qed

lemma ImpliedArguments_test_implied: "ImpliedArguments test_implied = [''b'']"
  by (simp add: test_implied_def py_function_def mk_code_def slice_def)

lemma except_NameError_simps:
  "except_NameError missing (Inr v) = Inr v"
  "except_NameError missing (Inl (NameError nm)) =
     (if (case nm of None \<Rightarrow> False | Some n \<Rightarrow> n \<in> missing)
      then Inl (PinasNameError missing) else Inl (NameError nm))"
  "(\<forall>nm. x \<noteq> NameError nm) \<Longrightarrow> except_NameError missing (Inl x) = Inl x"
  by (auto simp: except_NameError_def split: exc.splits)

lemma py_eval_syntax_error:
  "generate_tokens text = Some (toks, None) \<Longrightarrow> py_parse toks = Inl SyntaxError \<Longrightarrow>
     py_eval text env = Inl SyntaxError"
  by (simp add: py_eval_def)


subsection \<open>The parser\<close>

lemma bind_result_Inl:
  "bind_result r f = Inl x \<Longrightarrow> r = Inl x \<or> (\<exists>y. r = Inr y \<and> f y = Inl x)"
  by (cases r) (simp_all add: bind_result_def)

lemma parse_failure_simps: "parse_failure SyntaxError" "parse_failure Unmodelled"
  by (simp_all add: parse_failure_def)

lemma atom_of_failure: "atom_of t = Inl x \<Longrightarrow> parse_failure x"
  by (auto simp: atom_of_def parse_failure_def split: if_splits)

lemma fails_as_parserD: "fails_as_parser p \<Longrightarrow> p ts = Inl x \<Longrightarrow> parse_failure x"
  by (simp add: fails_as_parser_def)

lemma parse_arglist_failure:
  assumes p: "fails_as_parser p"
  shows "parse_arglist p n aks ts = Inl x \<Longrightarrow> parse_failure x"
proof (induction n arbitrary: aks ts)
  case 0
  then show ?case by (simp add: parse_failure_simps)
next
  case (Suc n)
  let ?arg = "if next_is (\<lambda>t. tok_type t = NAME) ts \<and> next_is (\<lambda>t. is_op t ''='') (tl ts) then
          (if tok_string (hd ts) \<in> python_keywords then Inl Unmodelled
           else if tok_string (hd ts) \<in> fst ` set (snd aks) then Inl SyntaxError
           else
             bind_result (p (tl (tl ts))) (\<lambda>r.
               Inr ((fst aks, snd aks @ [(tok_string (hd ts), fst r)]), snd r)))
        else if snd aks \<noteq> [] then Inl Unmodelled
        else bind_result (p ts) (\<lambda>r. Inr ((fst aks @ [fst r], snd aks), snd r))"
  from Suc.prems bind_result_Inl
  consider (arg) "?arg = Inl x"
    | (rest) r where "?arg = Inr r"
        "(if next_is (\<lambda>t. is_op t '')'') (snd r) then Inr (fst r, tl (snd r))
          else if next_is (\<lambda>t. is_op t '','') (snd r) then parse_arglist p n (fst r) (tl (snd r))
          else Inl Unmodelled) = Inl x"
    unfolding parse_arglist.simps by blast
  then show ?case
  proof cases
    case arg
    then show ?thesis
      using fails_as_parserD [OF p]
      by (auto simp: parse_failure_simps split: if_splits dest!: bind_result_Inl)
  next
    case rest
    then show ?thesis
      using Suc.IH by (auto simp: parse_failure_simps split: if_splits)
  qed
qed

lemma parse_trailers_failure:
  assumes p: "fails_as_parser p"
  shows "parse_trailers p n e ts = Inl x \<Longrightarrow> parse_failure x"
proof (induction n arbitrary: e ts)
  case 0
  then show ?case by (simp add: parse_failure_simps)
next
  case (Suc n)
  then show ?case
    using parse_arglist_failure [OF p]
    by (auto simp: parse_failure_simps split: if_splits dest!: bind_result_Inl)
qed

lemma parse_primary_failure:
  assumes p: "fails_as_parser p"
  shows "parse_primary p n ts = Inl x \<Longrightarrow> parse_failure x"
  using parse_trailers_failure [OF p] fails_as_parserD [OF p] atom_of_failure
  by (auto simp: parse_primary_def parse_failure_simps split: if_splits dest!: bind_result_Inl)

lemma parse_factor_failure:
  assumes p: "fails_as_parser p"
  shows "parse_factor p n ts = Inl x \<Longrightarrow> parse_failure x"
proof (induction n arbitrary: ts)
  case 0
  then show ?case by (simp add: parse_failure_simps)
next
  case (Suc n)
  then show ?case
    using parse_primary_failure [OF p]
    by (auto simp: parse_failure_simps split: if_splits dest!: bind_result_Inl)
qed

lemma parse_term_rest_failure:
  assumes p: "fails_as_parser p"
  shows "parse_term_rest p n l ts = Inl x \<Longrightarrow> parse_failure x"
proof (induction n arbitrary: l ts)
  case 0
  then show ?case by (simp add: parse_failure_simps)
next
  case (Suc n)
  then show ?case
    using parse_factor_failure [OF p]
    by (auto simp: parse_failure_simps split: if_splits dest!: bind_result_Inl)
qed

lemma parse_term_failure:
  assumes p: "fails_as_parser p"
  shows "parse_term p n ts = Inl x \<Longrightarrow> parse_failure x"
  using parse_factor_failure [OF p] parse_term_rest_failure [OF p]
  by (auto simp: parse_term_def dest!: bind_result_Inl)

lemma parse_sum_rest_failure:
  assumes p: "fails_as_parser p"
  shows "parse_sum_rest p n l ts = Inl x \<Longrightarrow> parse_failure x"
proof (induction n arbitrary: l ts)
  case 0
  then show ?case by (simp add: parse_failure_simps)
next
  case (Suc n)
  then show ?case
    using parse_term_failure [OF p]
    by (auto simp: parse_failure_simps split: if_splits dest!: bind_result_Inl)
qed

lemma parse_sum_failure:
  assumes p: "fails_as_parser p"
  shows "parse_sum p n ts = Inl x \<Longrightarrow> parse_failure x"
  using parse_term_failure [OF p] parse_sum_rest_failure [OF p]
  by (auto simp: parse_sum_def dest!: bind_result_Inl)

lemma parse_expression_fails_as_parser: "fails_as_parser (parse_expression n)"
proof (induction n)
  case 0
  show ?case by (simp add: fails_as_parser_def parse_failure_simps)
next
  case (Suc n)
  show ?case
    unfolding fails_as_parser_def
  proof (intro allI impI)
    fix ts x
    assume "parse_expression (Suc n) ts = Inl x"
    then show "parse_failure x"
      using parse_sum_failure [OF Suc] fails_as_parserD [OF Suc]
      by (auto simp: parse_failure_simps split: if_splits dest!: bind_result_Inl)
  qed
qed

lemma py_parse_failure: "py_parse toks = Inl x \<Longrightarrow> parse_failure x"
  using fails_as_parserD [OF parse_expression_fails_as_parser]
  by (auto simp: py_parse_def Let_def parse_failure_simps split: sum.splits if_splits prod.splits)


subsection \<open>Evaluation raises no expression error of its own\<close>

lemma no_expression_error_simps:
  "no_expression_error (Inr v)"
  "no_expression_error (Inl Unmodelled)"
  "no_expression_error (Inl TypeError)"
  "no_expression_error (Inl SyntaxError)"
  "no_expression_error (Inl (NameError nm))"
  "no_expression_error (Inl (PinasNameError names))"
  by (simp_all add: no_expression_error_def)

lemma no_expression_error_Inl:
  "no_expression_error (Inl x :: exc + 'a) \<Longrightarrow> no_expression_error (Inl x :: exc + 'b)"
  by (simp add: no_expression_error_def)

lemma call_function_quiet: "quiet fn \<Longrightarrow> no_expression_error (call_function fn args kwargs)"
  by (cases fn) (auto simp: no_expression_error_def raises_expression_error_def)

lemma supply_namespace_args_quiet:
  "quiet fn \<Longrightarrow> no_expression_error (supply_namespace_args fn ns args kwargs)"
  by (simp add: supply_namespace_args_def Let_def call_function_quiet no_expression_error_simps)

lemma call_object_quiet:
  assumes "quiet f"
  shows "no_expression_error (call_object env f args kwargs)"
    and "call_object env f args kwargs = Inr v \<Longrightarrow> quiet v"
proof -
  let ?r = "case f of Supplier fn \<Rightarrow> supply_namespace_args fn env args kwargs
            | _ \<Rightarrow> call_function f args kwargs"
  have r: "no_expression_error ?r"
    using assms call_function_quiet [OF assms] supply_namespace_args_quiet
    by (cases f) simp_all
  show "no_expression_error (call_object env f args kwargs)"
    using r unfolding call_object_def by (cases ?r) (simp_all add: no_expression_error_def)
  show "call_object env f args kwargs = Inr v \<Longrightarrow> quiet v"
    unfolding call_object_def by (cases ?r) auto
qed

lemma lookup_name_quiet:
  assumes "quiet_env env"
  shows "no_expression_error (lookup_name env x)"
    and "lookup_name env x = Inr v \<Longrightarrow> quiet v"
proof -
  show "no_expression_error (lookup_name env x)"
    by (auto simp: lookup_name_def no_expression_error_def split: option.splits obj.splits)
  show "lookup_name env x = Inr v \<Longrightarrow> quiet v"
  proof (cases "env x")
    case (Some w)
    assume "lookup_name env x = Inr v"
    with Some assms show ?thesis by (auto simp: lookup_name_def quiet_env_def)
  next
    case None
    assume l: "lookup_name env x = Inr v"
    with None obtain d where d: "env ''__builtins__'' = Some (Dict d)" and m: "map_of d x = Some v"
      by (auto simp: lookup_name_def split: option.splits obj.splits)
    from d assms have "quiet (Dict d)" unfolding quiet_env_def by blast
    with map_of_SomeD [OF m] show ?thesis by force
  qed
qed

lemma binop_apply_quiet:
  "no_expression_error (binop_apply op l r)" "binop_apply op l r = Inr v \<Longrightarrow> quiet v"
  by (auto simp: binop_apply_def no_expression_error_def split: obj.splits pval.splits)

lemma eval_quiet:
  shows "quiet_env env \<longrightarrow>
           no_expression_error (eval_expr env e) \<and> (\<forall>v. eval_expr env e = Inr v \<longrightarrow> quiet v)"
    and "quiet_env env \<longrightarrow> no_expression_error (eval_args env as)"
    and "quiet_env env \<longrightarrow> no_expression_error (eval_keywords env kws)"
proof (induction env e and env as and env kws rule: eval_expr_eval_args_eval_keywords.induct)
  case (1 env v)
  show ?case by (simp add: no_expression_error_simps)
next
  case (2 env x)
  show ?case using lookup_name_quiet [of env x] by simp
next
  case (3 env e)
  then show ?case
    by (auto simp: no_expression_error_def split: sum.splits obj.splits pval.splits)
next
  case (4 env l op r)
  then show ?case
    using binop_apply_quiet
    by (auto simp: no_expression_error_def split: sum.splits)
next
  case (5 env test body orelse)
  then show ?case
    by (auto simp: no_expression_error_def split: sum.splits)
next
  case (6 env f args kws)
  show ?case
  proof
    assume q: "quiet_env env"
    show "no_expression_error (eval_expr env (Call f args kws))
            \<and> (\<forall>v. eval_expr env (Call f args kws) = Inr v \<longrightarrow> quiet v)"
    proof (cases "eval_expr env f")
      case (Inl x)
      with 6(1) q show ?thesis by (simp add: no_expression_error_def)
    next
      case fo: (Inr fo)
      with 6(1) q have qf: "quiet fo" by simp
      show ?thesis
      proof (cases "eval_args env args")
        case (Inl x)
        with 6(2) [OF fo] q fo show ?thesis by (simp add: no_expression_error_def)
      next
        case avs: (Inr avs)
        show ?thesis
        proof (cases "eval_keywords env kws")
          case (Inl x)
          with 6(3) [OF fo avs] q fo avs show ?thesis by (simp add: no_expression_error_def)
        next
          case kvs: (Inr kvs)
          from call_object_quiet [OF qf, of env avs kvs] fo avs kvs show ?thesis
            by simp
        qed
      qed
    qed
  qed
next
  case (7 env)
  show ?case by (simp add: no_expression_error_simps)
next
  case (8 env a as)
  then show ?case
    by (auto simp: no_expression_error_def split: sum.splits obj.splits)
next
  case (9 env)
  show ?case by (simp add: no_expression_error_simps)
next
  case (10 env k a kws)
  then show ?case
    by (auto simp: no_expression_error_def split: sum.splits obj.splits)
qed

lemma py_eval_quiet: "quiet_env env \<Longrightarrow> no_expression_error (py_eval text env)"
proof -
  assume q: "quiet_env env"
  show ?thesis
  proof (cases "generate_tokens text")
    case None
    then show ?thesis by (simp add: py_eval_def no_expression_error_simps)
  next
    case (Some stream)
    obtain toks raised where st: "stream = (toks, raised)" by (cases stream)
    show ?thesis
    proof (cases raised)
      case (Some x)
      with \<open>generate_tokens text = Some stream\<close> st show ?thesis
        by (simp add: py_eval_def no_expression_error_simps)
    next
      case None
      show ?thesis
      proof (cases "py_parse toks")
        case (Inl x)
        from py_parse_failure [OF Inl] have "no_expression_error (Inl x :: exc + obj)"
          by (auto simp: parse_failure_def no_expression_error_def)
        with Inl None \<open>generate_tokens text = Some stream\<close> st show ?thesis
          by (simp add: py_eval_def)
      next
        case (Inr ast)
        with None \<open>generate_tokens text = Some stream\<close> st eval_quiet(1) [of env ast] q
        show ?thesis by (simp add: py_eval_def)
      qed
    qed
  qed
qed

lemma except_NameError_quiet:
  "no_expression_error r \<Longrightarrow> no_expression_error (except_NameError missing r)"
  by (auto simp: except_NameError_def no_expression_error_def split: sum.splits exc.splits)

lemma SupplyImpliedArguments_quiet: "quiet fn \<Longrightarrow> quiet (SupplyImpliedArguments fn)"
  by (simp add: SupplyImpliedArguments_def)

lemma quiet_env_update: "quiet_env env \<Longrightarrow> quiet v \<Longrightarrow> quiet_env (env(n \<mapsto> v))"
  by (simp add: quiet_env_def)

lemma supply_all_quiet:
  "\<forall>nf \<in> set l. quiet (snd nf) \<Longrightarrow> quiet_env env \<Longrightarrow> quiet_env (supply_all l env)"
proof (induction l arbitrary: env)
  case Nil
  then show ?case by simp
next
  case (Cons a l)
  obtain k fn where a: "a = (k, fn)" by (cases a)
  from Cons.prems(1) have qf: "quiet fn" and ql: "\<forall>nf \<in> set l. quiet (snd nf)"
    by (simp_all add: a)
  have "quiet_env (if env k \<noteq> None then env(k \<mapsto> SupplyImpliedArguments fn) else env)"
    using Cons.prems(2) quiet_env_update [OF Cons.prems(2) SupplyImpliedArguments_quiet [OF qf]]
    by simp
  from Cons.IH [OF ql this] show ?case by (simp add: a)
qed

lemma quiet_env_add: "quiet_env m1 \<Longrightarrow> quiet_env m2 \<Longrightarrow> quiet_env (m1 ++ m2)"
  by (auto simp: quiet_env_def map_add_def split: option.splits)

lemma quiet_env_restrict: "quiet_env m \<Longrightarrow> quiet_env (m |` S)"
  by (auto simp: quiet_env_def restrict_map_def split: if_splits)

lemma quiet_env_builtins: "quiet_env [''__builtins__'' \<mapsto> Dict []]"
  by (simp add: quiet_env_def)

lemma effective_namespace_quiet:
  assumes "Expression_init_tokens backend stream = Inr e" and "quiet_backend backend"
    and "quiet_env ns" and "effective_namespace e ns = Inr env"
  shows "quiet_env env"
proof -
  from Expression_init_tokens_finish [OF assms(1)] obtain s where s: "finish_scan backend s = Inr e" ..
  note fs = finish_scan_names [OF s]
  from assms(2) have qp: "quiet_env (predefined_functions backend)"
    and ql: "\<forall>nf \<in> set (SupplyImpliedArguments_for backend). quiet (snd nf)"
    by (simp_all add: quiet_backend_def)
  have qb: "quiet_env (base_namespace e)"
    unfolding fs(3) by (intro quiet_env_add quiet_env_builtins quiet_env_restrict qp)
  have q0: "quiet_env (base_namespace e ++ (ns |` free_variables e))"
    by (intro quiet_env_add qb quiet_env_restrict assms(3))
  from assms(4) have "env = supply_all (SupplyImpliedArguments_for backend)
                             (base_namespace e ++ (ns |` free_variables e))"
    unfolding compiled_effective_namespace [OF assms(1)] fs(5) by (simp split: if_splits)
  with supply_all_quiet [OF ql q0] show ?thesis by simp
qed

lemma Expression_init_tokens_error:
  assumes "Expression_init_tokens backend (toks, raised) = Inl x"
  shows "(\<exists>t m. x = PinasExpressionError t m) \<or> x = IndexError \<or> x = KeyError \<or> raised = Some x"
proof (cases "scan_tokens backend scan_start toks")
  case (Inl y)
  with assms have xy: "x = y" by (simp add: Expression_init_tokens_def)
  have "(\<exists>t m. y = PinasExpressionError t m) \<or> y = IndexError"
    using Inl
  proof (induction toks arbitrary: y rule: rev_induct)
    case Nil
    then show ?case by simp
  next
    case (snoc t toks)
    show ?case
    proof (cases "scan_tokens backend scan_start toks")
      case (Inl z)
      with snoc.prems have "y = z" by (simp add: scan_tokens_append)
      with snoc.IH [OF Inl] show ?thesis by simp
    next
      case (Inr s)
      with snoc.prems have "scan_token backend s t = Inl y"
        by (simp add: scan_tokens_append split: sum.splits)
      from scan_token_error_kind [OF this] show ?thesis by blast
    qed
  qed
  with xy show ?thesis by blast
next
  case (Inr s)
  show ?thesis
  proof (cases raised)
    case None
    with Inr assms have "finish_scan backend s = Inl x"
      by (simp add: Expression_init_tokens_def)
    then have "x = KeyError"
      by (auto simp: finish_scan_def Let_def split: if_splits)
    then show ?thesis by simp
  next
    case (Some y)
    with Inr assms show ?thesis by (simp add: Expression_init_tokens_def)
  qed
qed

lemma Backend_init_quiet:
  assumes "Backend_init builtins m abn akw am = Inr b"
    and "quiet_env builtins" and "quiet_env (module_getattr m)"
  shows "quiet_backend b"
proof -
  from assms(1) have
    sl: "SupplyImpliedArguments_for b =
       filter (\<lambda>(n, fn). length (ImpliedArguments fn) > 0)
         (map (\<lambda>n. (n, the ((module_getattr m |` set (module_all m)) n))) (dict_keys_of (module_all m)))"
    and pf: "predefined_functions b =
       (builtins |` (case abn of None \<Rightarrow> default_allow_builtin_names | Some s \<Rightarrow> s))
         ++ (module_getattr m |` set (module_all m))"
    and df: "\<forall>n \<in> set (module_all m). module_getattr m n \<noteq> None"
    by (simp_all add: Backend_init_def Let_def split: if_splits) auto
  have 1: "quiet_env (predefined_functions b)"
    unfolding pf by (intro quiet_env_add quiet_env_restrict assms(2,3))
  have 2: "\<forall>nf \<in> set (SupplyImpliedArguments_for b). quiet (snd nf)"
  proof
    fix nf
    assume "nf \<in> set (SupplyImpliedArguments_for b)"
    then obtain n where n: "n \<in> set (module_all m)"
      and nf: "snd nf = the ((module_getattr m |` set (module_all m)) n)"
      unfolding sl by (auto simp: dict_keys_of_def)
    from df n obtain v where v: "module_getattr m n = Some v" by auto
    with assms(3) have "quiet v" by (auto simp: quiet_env_def)
    with nf n v show "quiet (snd nf)" by simp
  qed
  from 1 2 show ?thesis by (simp add: quiet_backend_def)
qed

lemma bind_arguments_error: "bind_arguments co d args kwargs = Inl x \<Longrightarrow> x = TypeError"
  by (simp add: bind_arguments_def Let_def split: if_splits)

lemma quiet_py_function:
  assumes "\<And>v. no_expression_error (body v)"
  shows "quiet (py_function co kwd body)"
proof -
  have "no_expression_error
          (case bind_arguments co (case kwd of None \<Rightarrow> [] | Some d \<Rightarrow> d) args kwargs of
             Inl e \<Rightarrow> Inl e | Inr bound \<Rightarrow> body (\<lambda>n. the (bound n)))" for args kwargs
  proof (cases "bind_arguments co (case kwd of None \<Rightarrow> [] | Some d \<Rightarrow> d) args kwargs")
    case (Inl x)
    from bind_arguments_error [OF Inl] Inl show ?thesis
      by (simp add: no_expression_error_simps)
  next
    case (Inr bound)
    with assms show ?thesis by simp
  qed
  then show ?thesis
    by (simp add: py_function_def raises_expression_error_def no_expression_error_def)
qed

lemma py_add_quiet: "no_expression_error (py_add a b)"
  by (auto simp: py_add_def no_expression_error_def split: pval.splits)

lemma quiet_py_builtins: "quiet_env py_builtins"
proof -
  have a: "\<not> raises_expression_error builtin_abs"
    by (auto simp: raises_expression_error_def builtin_abs_def split: list.splits pval.splits)
  have u: "\<not> raises_expression_error builtin_unmodelled"
    by (simp add: raises_expression_error_def builtin_unmodelled_def)
  show ?thesis
    unfolding quiet_env_def py_builtins_def using a u by (auto split: if_splits)
qed

lemma quiet_test_module: "quiet_env (module_getattr test_module)"
proof -
  have "quiet test_add" "quiet test_add_d" "quiet test_oct" "quiet test_bit_length"
    "quiet test_implied" "quiet test_name_collision" "quiet test_implied_name_collision"
    unfolding test_add_def test_add_d_def test_oct_def test_bit_length_def test_implied_def
      test_name_collision_def test_implied_name_collision_def
    by (intro quiet_py_function py_add_quiet no_expression_error_simps)+
  moreover have "quiet test_pos_only"
    unfolding test_pos_only_def
  proof (rule quiet_py_function)
    fix v
    show "no_expression_error
            (bind_result (py_add (v ''x'') (v ''y'')) (\<lambda>s.
               bind_result (py_add s (v ''z'')) (\<lambda>s'. py_add s' (v ''p''))))"
      using py_add_quiet
      by (auto simp: bind_result_def no_expression_error_def split: sum.splits)
  qed
  ultimately show ?thesis
    by (auto simp: quiet_env_def test_module_def split: if_splits)
qed

lemma quiet_test_backend: "quiet_backend test_backend"
  using Backend_init_quiet [OF _ quiet_py_builtins quiet_test_module] test_backend_constructed
  by (simp add: test_backend_result_def)


subsection \<open>Construction on a constructed backend\<close>

text \<open>
  A backend that \<^verbatim>\<open>Backend.__init__\<close> returned has an entry in
  \<open>predefined_functions\<close> for every predefined name, so the lookup at the end of
  \<^verbatim>\<open>Expression.__init__\<close> does not fail on it.
\<close>

lemma Backend_init_predefined:
  assumes "Backend_init builtins m abn akw am = Inr b"
  shows "\<forall>n \<in> predefined_names b. predefined_functions b n \<noteq> None"
proof -
  define names where "names = (case abn of None \<Rightarrow> default_allow_builtin_names | Some s \<Rightarrow> s)"
  from assms have a: "\<not> (\<exists>n \<in> names. builtins n = None)"
    and c: "\<not> (\<exists>n \<in> set (module_all m). module_getattr m n = None)"
    and n: "predefined_names b = set (module_all m) \<union> names"
    and f: "predefined_functions b = (builtins |` names) ++ (module_getattr m |` set (module_all m))"
    by (auto simp: Backend_init_def Let_def names_def split: if_splits)
  show ?thesis
  proof
    fix x assume "x \<in> predefined_names b"
    with n have "x \<in> set (module_all m) \<or> x \<in> names" by simp
    with a c show "predefined_functions b x \<noteq> None"
      unfolding f by (auto simp: map_add_def restrict_map_def split: option.splits)
  qed
qed

lemma finish_scan_constructed:
  assumes "Backend_init builtins m abn akw am = Inr b"
  shows "\<not> isl (finish_scan b s)"
proof -
  let ?pf = "add_implied b (SupplyImpliedArguments_for b)
                 ((unbound_names s \<inter> predefined_names b) - allow_keywords_and_methods b,
                  unbound_names s - predefined_names b - allow_keywords_and_methods b)"
  have "fst ?pf \<subseteq> predefined_names b"
    by (rule add_implied_sound [THEN conjunct1]) auto
  with Backend_init_predefined [OF assms] have "\<not> (\<exists>n \<in> fst ?pf. predefined_functions b n = None)"
    by blast
  then show ?thesis by (simp add: finish_scan_def Let_def)
qed

lemma Expression_init_tokens_error_constructed:
  assumes "Backend_init builtins m abn akw am = Inr backend"
    and "operators_nonempty toks"
    and "Expression_init_tokens backend (toks, raised) = Inl x"
  shows "(\<exists>t m. x = PinasExpressionError t m) \<or> raised = Some x"
proof (cases "scan_tokens backend scan_start toks")
  case (Inl y)
  with assms(3) have "x = y" by (simp add: Expression_init_tokens_def)
  with scan_tokens_error_kind [OF assms(2) Inl] show ?thesis by simp
next
  case (Inr s)
  show ?thesis
  proof (cases raised)
    case None
    with Inr assms(3) have "finish_scan backend s = Inl x"
      by (simp add: Expression_init_tokens_def)
    with finish_scan_constructed [OF assms(1), of s] show ?thesis by simp
  next
    case (Some y)
    with Inr assms(3) show ?thesis by (simp add: Expression_init_tokens_def)
  qed
qed

lemma tokens_bit_length:
  "generate_tokens ''1 . bit_length()'' =
     Some ([mk_token NUMBER ''1'' 1 0 1, mk_token OP ''.'' 1 2 3]
             @ mk_token NAME ''bit_length'' 1 4 14
             # [mk_token OP ''('' 1 14 15, mk_token OP '')'' 1 15 16,
                mk_token NEWLINE [] 1 16 17, mk_token ENDMARKER [] 2 0 0], None)"
  by code_simp


subsection \<open>The blacklist (C1)\<close>

text \<open>
  C1, as stated: construction fails whenever a registered name is in
  \<open>known_unsafe_builtins\<close>, whether it comes from the allowed builtin names or from the
  module's \<^verbatim>\<open>__all__\<close>. The code tests the allowed builtin names only (line 115): a
  module that exports a function named \<^verbatim>\<open>exec\<close> is accepted with the default builtin
  names, and \<^verbatim>\<open>exec\<close> is then a predefined name of the backend.
\<close>

theorem blacklist_module_export_counterexample:
  "''exec'' \<in> set (module_all exec_module)
   \<and> ''exec'' \<in> known_unsafe_builtins
   \<and> \<not> isl (Backend_init py_builtins exec_module None None None)
   \<and> ''exec'' \<in> predefined_names (projr (Backend_init py_builtins exec_module None None None))"
proof -
  have "\<forall>n \<in> set (module_all exec_module). module_getattr exec_module n \<noteq> None"
    by (simp add: exec_module_def)
  from Backend_init_default [OF this] exec_unsafe show ?thesis
    by (simp add: exec_module_def)
qed

text \<open>
  C1, amended: the construction fails with \<^verbatim>\<open>ValueError\<close> exactly when the allowed
  builtin names (the override, or the default set when there is none) share a name
  with \<open>known_unsafe_builtins\<close>, whatever the module, the keywords and the methods are.
  The names of the module's \<^verbatim>\<open>__all__\<close> are not tested against the blacklist: when the
  allowed builtin names are safe and every name has its object, the backend is
  constructed and all names of \<^verbatim>\<open>__all__\<close> are predefined names of it.
\<close>

theorem blacklist_allow_builtin_names:
  "(Backend_init builtins m abn akw am = Inl ValueError
      \<longleftrightarrow> (case abn of None \<Rightarrow> default_allow_builtin_names | Some s \<Rightarrow> s)
            \<inter> known_unsafe_builtins \<noteq> {})
   \<and> ((case abn of None \<Rightarrow> default_allow_builtin_names | Some s \<Rightarrow> s) \<inter> known_unsafe_builtins = {}
        \<and> (\<forall>n \<in> (case abn of None \<Rightarrow> default_allow_builtin_names | Some s \<Rightarrow> s). builtins n \<noteq> None)
        \<and> (\<forall>n \<in> set (module_all m). module_getattr m n \<noteq> None)
      \<longrightarrow> (\<exists>b. Backend_init builtins m abn akw am = Inr b
               \<and> predefined_names b
                   = set (module_all m)
                       \<union> (case abn of None \<Rightarrow> default_allow_builtin_names | Some s \<Rightarrow> s)))"
  by (simp add: Backend_init_def Let_def)

text \<open>
  A witness for C1: an override that allows \<^verbatim>\<open>exec\<close>, and the module that exports
  \<^verbatim>\<open>exec\<close> under the default names.
\<close>

theorem blacklist_allow_builtin_names_witness:
  "Backend_init py_builtins exec_module (Some {''abs'', ''exec''}) None None = Inl ValueError
   \<and> (\<exists>b. Backend_init py_builtins exec_module None None None = Inr b
          \<and> predefined_names b = set (module_all exec_module) \<union> default_allow_builtin_names)"
proof -
  have h: "(case Some {''abs'', ''exec''} of None \<Rightarrow> default_allow_builtin_names | Some s \<Rightarrow> s)
          \<inter> known_unsafe_builtins \<noteq> {}"
    using exec_unsafe by auto
  have g: "(case None of None \<Rightarrow> default_allow_builtin_names | Some s \<Rightarrow> s) \<inter> known_unsafe_builtins = {}
        \<and> (\<forall>n \<in> (case None of None \<Rightarrow> default_allow_builtin_names | Some s \<Rightarrow> s). py_builtins n \<noteq> None)
        \<and> (\<forall>n \<in> set (module_all exec_module). module_getattr exec_module n \<noteq> None)"
    using default_names_safe py_builtins_default by (simp add: exec_module_def)
  from blacklist_allow_builtin_names [of py_builtins exec_module "Some {''abs'', ''exec''}" None None] h
  have 1: "Backend_init py_builtins exec_module (Some {''abs'', ''exec''}) None None = Inl ValueError"
    by blast
  from blacklist_allow_builtin_names [of py_builtins exec_module None None None] g
  have 2: "\<exists>b. Backend_init py_builtins exec_module None None None = Inr b
          \<and> predefined_names b = set (module_all exec_module) \<union> default_allow_builtin_names"
    by simp
  from 1 2 show ?thesis by blast
qed


subsection \<open>Where the errors arise (C2)\<close>

text \<open>
  C2, as stated: every syntax error is raised by the construction and never by
  \<^verbatim>\<open>eval\<close>. The construction looks at the tokens one by one and does not parse;
  \<^verbatim>\<open>eval\<close> hands the text to Python's \<^verbatim>\<open>eval\<close>, which does. The tokens of \<^verbatim>\<open>1 +\<close>
  pass the loop, the expression is constructed, and its evaluation raises
  \<^verbatim>\<open>SyntaxError\<close>. (The docstring of \<^verbatim>\<open>__init__\<close> says that a syntax error might not be
  detected until \<^verbatim>\<open>eval\<close> time.)
\<close>

theorem syntax_error_at_eval_counterexample:
  "\<not> isl (Expression_init test_backend ''1 +'')
   \<and> expr (projr (Expression_init test_backend ''1 +'')) = ''1 +''
   \<and> Expression_eval (projr (Expression_init test_backend ''1 +'')) Map.empty = Inl SyntaxError
   \<and> compile_and_eval test_backend ''1 +'' Map.empty = Inl SyntaxError"
proof -
  have 1: "\<not> isl (Expression_init test_backend ''1 +'')" by code_simp
  have 2: "expr (projr (Expression_init test_backend ''1 +'')) = ''1 +''" by code_simp
  have 3: "Expression_eval (projr (Expression_init test_backend ''1 +'')) Map.empty = Inl SyntaxError"
    by (rule Inl_caseI) code_simp
  have 4: "compile_and_eval test_backend ''1 +'' Map.empty = Inl SyntaxError"
    by (rule Inl_caseI) code_simp
  from 1 2 3 4 show ?thesis by blast
qed

text \<open>
  C2, amended: (1) \<^verbatim>\<open>eval\<close> on a constructed expression never raises a
  \<open>PinasExpressionError\<close> of its own: when no function of the backend and no object of
  the namespace raises one when called, the outcome of \<^verbatim>\<open>eval\<close> is none. (2) On a
  backend that \<^verbatim>\<open>Backend.__init__\<close> returned and on tokens whose operators are not
  empty strings (those of a tokenizer), a construction that fails raises a
  \<open>PinasExpressionError\<close> or what the tokenizer raised, and nothing else: no
  \<^verbatim>\<open>NameError\<close> and no error of an evaluation. A syntax error that the tokens do not
  show is raised by \<^verbatim>\<open>eval\<close>.
\<close>

theorem expression_errors_at_construction:
  assumes "Expression_init_tokens backend stream = Inr e"
    and "quiet_backend backend" and "quiet_env ns"
  shows "(\<forall>t m. Expression_eval e ns \<noteq> Inl (PinasExpressionError t m))
       \<and> (\<forall>builtins m abn akw am toks raised x.
            Backend_init builtins m abn akw am = Inr backend \<and> operators_nonempty toks
              \<and> Expression_init_tokens backend (toks, raised) = Inl x \<longrightarrow>
            (\<exists>t m. x = PinasExpressionError t m) \<or> raised = Some x)"
proof -
  have "no_expression_error (Expression_eval e ns)"
  proof (cases "effective_namespace e ns")
    case (Inl x)
    with compiled_effective_namespace [OF assms(1), of ns]
    have "x = ValueError_ambiguous {''__builtins__''}" by (simp split: if_splits)
    with Inl show ?thesis
      by (simp add: Expression_eval_def Expression_eval_with_def no_expression_error_def)
  next
    case (Inr env)
    from effective_namespace_quiet [OF assms Inr] have "quiet_env env" .
    from except_NameError_quiet [OF py_eval_quiet [OF this]] Inr show ?thesis
      by (simp add: Expression_eval_def Expression_eval_with_def)
  qed
  then have 1: "\<forall>t m. Expression_eval e ns \<noteq> Inl (PinasExpressionError t m)"
    by (simp add: no_expression_error_def)
  from 1 Expression_init_tokens_error_constructed show ?thesis by blast
qed


text \<open>
  A witness for C2: the backend of the tests is constructed and raises no expression
  error in its functions; two evaluations and one failed construction, on the tokens
  of \<^verbatim>\<open>1 . bit_length()\<close>, which the tokenizer finishes without raising.
\<close>

theorem expression_errors_at_construction_witness:
  "(\<forall>t m. Expression_eval (projr (Expression_init test_backend ''add_d(10)''))
              [''d'' \<mapsto> Val (VInt 3)] \<noteq> Inl (PinasExpressionError t m))
   \<and> (\<forall>t m. Expression_eval (projr (Expression_init test_backend ''1 +'')) Map.empty
              \<noteq> Inl (PinasExpressionError t m))
   \<and> isl (Expression_init test_backend ''1 . bit_length()'')
   \<and> (\<exists>t m. projl (Expression_init test_backend ''1 . bit_length()'') = PinasExpressionError t m)"
proof -
  let ?toks = "[mk_token NUMBER ''1'' 1 0 1, mk_token OP ''.'' 1 2 3]
             @ mk_token NAME ''bit_length'' 1 4 14
             # [mk_token OP ''('' 1 14 15, mk_token OP '')'' 1 15 16,
                mk_token NEWLINE [] 1 16 17, mk_token ENDMARKER [] 2 0 0]"
  have q: "quiet_env [''d'' \<mapsto> Val (VInt 3)]" by (simp add: quiet_env_def)
  have q0: "quiet_env Map.empty" by (simp add: quiet_env_def)
  have c1: "\<not> isl (Expression_init test_backend ''add_d(10)'')" by code_simp
  have c2: "\<not> isl (Expression_init test_backend ''1 +'')" by code_simp
  note i1 = expression_errors_at_construction [OF Expression_init_projr [OF c1] quiet_test_backend q]
  note i2 = expression_errors_at_construction [OF Expression_init_projr [OF c2] quiet_test_backend q0]
  have b: "Backend_init py_builtins test_module None None None = Inr test_backend"
    using test_backend_constructed by (simp add: test_backend_result_def)
  have o: "operators_nonempty ?toks" by (simp add: operators_nonempty_def mk_token_def)
  have l: "isl (Expression_init test_backend ''1 . bit_length()'')" by code_simp
  then have "Expression_init test_backend ''1 . bit_length()''
                 = Inl (projl (Expression_init test_backend ''1 . bit_length()''))"
    by (cases "Expression_init test_backend ''1 . bit_length()''") simp_all
  then have "Expression_init_tokens test_backend (?toks, None)
               = Inl (projl (Expression_init test_backend ''1 . bit_length()''))"
    by (simp add: Expression_init_def tokens_bit_length)
  with i1 b o have 3: "\<exists>t m. projl (Expression_init test_backend ''1 . bit_length()'') = PinasExpressionError t m"
    by (metis option.distinct(1))
  from i1 i2 l 3 show ?thesis by blast
qed


subsection \<open>Namespace entries for bound names (C3)\<close>

text \<open>
  C3, as stated: when the namespace supplies a value for a name that the registry
  binds and the expression refers to, \<^verbatim>\<open>eval\<close> fails with the ambiguous-name error.
  The code never reads such an entry: \<open>effective_namespace\<close> looks the free
  variables up in the namespace and nothing else. With the backend of the tests,
  \<^verbatim>\<open>add(a, b)\<close> evaluates to 3 in a namespace that also gives \<^verbatim>\<open>add\<close> the value 7.
\<close>

theorem namespace_collision_counterexample:
  "\<not> isl (Expression_init test_backend ''add(a, b)'')
   \<and> ''add'' \<in> predefined_names_of (projr (Expression_init test_backend ''add(a, b)''))
   \<and> Expression_eval (projr (Expression_init test_backend ''add(a, b)''))
        [''add'' \<mapsto> Val (VInt 7), ''a'' \<mapsto> Val (VInt 1), ''b'' \<mapsto> Val (VInt 2)]
       = Inr (Val (VInt 3))"
proof -
  have 1: "\<not> isl (Expression_init test_backend ''add(a, b)'')" by code_simp
  have 2: "''add'' \<in> predefined_names_of (projr (Expression_init test_backend ''add(a, b)''))"
    by code_simp
  have 3: "Expression_eval (projr (Expression_init test_backend ''add(a, b)''))
        [''add'' \<mapsto> Val (VInt 7), ''a'' \<mapsto> Val (VInt 1), ''b'' \<mapsto> Val (VInt 2)]
       = Inr (Val (VInt 3))"
    by (rule Inr_Val_caseI) code_simp
  from 1 2 3 show ?thesis by blast
qed

text \<open>
  C3, amended: for every compiled expression and every namespace, (1) no free variable
  is a bound name of the expression; (2) an entry of the namespace for a name that is
  not a free variable, a bound name in particular, is ignored: \<^verbatim>\<open>eval\<close> returns what
  it returns without the entry; (3) \<^verbatim>\<open>eval\<close> fails with the ambiguous-name
  \<^verbatim>\<open>ValueError\<close> exactly when \<^verbatim>\<open>__builtins__\<close>, the one key of the base environment
  that is no bound name, is a free variable of the expression, (4) and otherwise
  the effective environment is built. The test depends on the compiled expression
  only, not on the namespace.
\<close>

theorem namespace_entry_for_bound_name:
  assumes "Expression_init_tokens backend stream = Inr e"
  shows "free_variables e \<inter> predefined_names_of e = {}
       \<and> (\<forall>n v. n \<notin> free_variables e \<longrightarrow> Expression_eval e (ns(n \<mapsto> v)) = Expression_eval e ns)
       \<and> (''__builtins__'' \<in> free_variables e \<longrightarrow>
            Expression_eval e ns = Inl (ValueError_ambiguous {''__builtins__''}))
       \<and> (''__builtins__'' \<notin> free_variables e \<longrightarrow> (\<exists>env. effective_namespace e ns = Inr env))"
proof -
  from Expression_init_tokens_finish [OF assms] obtain s where s: "finish_scan backend s = Inr e" ..
  have 1: "free_variables e \<inter> predefined_names_of e = {}"
    using finish_scan_names(1,2) [OF s] by blast
  have 2: "\<forall>n v. n \<notin> free_variables e \<longrightarrow> Expression_eval e (ns(n \<mapsto> v)) = Expression_eval e ns"
  proof (intro allI impI)
    fix n v
    assume "n \<notin> free_variables e"
    from update_restrict_other [OF this]
    have "(ns(n \<mapsto> v)) |` free_variables e = ns |` free_variables e" .
    with Expression_eval_with_restrict [of py_eval e "ns(n \<mapsto> v)"]
      Expression_eval_with_restrict [of py_eval e ns]
    show "Expression_eval e (ns(n \<mapsto> v)) = Expression_eval e ns"
      by (simp add: Expression_eval_def)
  qed
  have 3: "''__builtins__'' \<in> free_variables e \<longrightarrow>
            Expression_eval e ns = Inl (ValueError_ambiguous {''__builtins__''})"
    by (simp add: Expression_eval_def Expression_eval_with_def compiled_effective_namespace [OF assms])
  have 4: "''__builtins__'' \<notin> free_variables e \<longrightarrow> (\<exists>env. effective_namespace e ns = Inr env)"
    by (simp add: compiled_effective_namespace [OF assms])
  from 1 2 3 4 show ?thesis by blast
qed

text \<open>
  A witness for C3: \<^verbatim>\<open>add(a, b)\<close> with an entry for \<^verbatim>\<open>add\<close>, and the expression
  \<^verbatim>\<open>__builtins__\<close>.
\<close>

theorem namespace_entry_for_bound_name_witness:
  "Expression_eval (projr (Expression_init test_backend ''add(a, b)''))
     ([''a'' \<mapsto> Val (VInt 1), ''b'' \<mapsto> Val (VInt 2)](''add'' \<mapsto> Val (VInt 7)))
     = Expression_eval (projr (Expression_init test_backend ''add(a, b)''))
         [''a'' \<mapsto> Val (VInt 1), ''b'' \<mapsto> Val (VInt 2)]
   \<and> Expression_eval (projr (Expression_init test_backend ''__builtins__'')) Map.empty
     = Inl (ValueError_ambiguous {''__builtins__''})"
proof -
  have c1: "\<not> isl (Expression_init test_backend ''add(a, b)'')" by code_simp
  have f1: "''add'' \<notin> free_variables (projr (Expression_init test_backend ''add(a, b)''))"
    by code_simp
  have c2: "\<not> isl (Expression_init test_backend ''__builtins__'')" by code_simp
  have f2: "''__builtins__'' \<in> free_variables (projr (Expression_init test_backend ''__builtins__''))"
    by code_simp
  from namespace_entry_for_bound_name [OF Expression_init_projr [OF c1]] f1
    namespace_entry_for_bound_name [OF Expression_init_projr [OF c2]] f2
  show ?thesis by blast
qed


subsection \<open>Illegal methods (C4)\<close>

text \<open>
  C4, as stated: an identifier that follows a dot and is not an allowed method makes
  the construction fail with an error that reports illegal method access at that
  identifier. The loop raises at the first token it rejects. In \<^verbatim>\<open>x.foo.bar\<close> with the
  backend of the tests both \<^verbatim>\<open>foo\<close> and \<^verbatim>\<open>bar\<close> follow a dot and neither is an
  allowed method; the error reports \<^verbatim>\<open>foo\<close> at column 2, not \<^verbatim>\<open>bar\<close> at column 6.
\<close>

theorem illegal_method_position_counterexample:
  "generate_tokens ''x.foo.bar'' =
     Some ([mk_token NAME ''x'' 1 0 1, mk_token OP ''.'' 1 1 2, mk_token NAME ''foo'' 1 2 5,
            mk_token OP ''.'' 1 5 6]
             @ mk_token NAME ''bar'' 1 6 9
             # [mk_token NEWLINE [] 1 9 10, mk_token ENDMARKER [] 2 0 0], None)
   \<and> last_kept None [mk_token NAME ''x'' 1 0 1, mk_token OP ''.'' 1 1 2,
                      mk_token NAME ''foo'' 1 2 5, mk_token OP ''.'' 1 5 6]
       = Some (mk_token OP ''.'' 1 5 6)
   \<and> ''bar'' \<notin> allow_methods test_backend
   \<and> Expression_init test_backend ''x.foo.bar''
       = Inl (PinasExpressionError (mk_token NAME ''foo'' 1 2 5) ''Illegal method .foo'')
   \<and> Expression_init test_backend ''x.foo.bar''
       \<noteq> Inl (PinasExpressionError (mk_token NAME ''bar'' 1 6 9) ''Illegal method .bar'')"
proof -
  have 1: "generate_tokens ''x.foo.bar'' =
     Some ([mk_token NAME ''x'' 1 0 1, mk_token OP ''.'' 1 1 2, mk_token NAME ''foo'' 1 2 5,
            mk_token OP ''.'' 1 5 6]
             @ mk_token NAME ''bar'' 1 6 9
             # [mk_token NEWLINE [] 1 9 10, mk_token ENDMARKER [] 2 0 0], None)"
    by code_simp
  have 2: "last_kept None [mk_token NAME ''x'' 1 0 1, mk_token OP ''.'' 1 1 2,
                      mk_token NAME ''foo'' 1 2 5, mk_token OP ''.'' 1 5 6]
       = Some (mk_token OP ''.'' 1 5 6)"
    by (simp add: mk_token_def dropped_type_def)
  have 3: "''bar'' \<notin> allow_methods test_backend"
    by (simp add: test_backend_methods default_allow_methods_def)
  have 4: "Expression_init test_backend ''x.foo.bar''
       = Inl (PinasExpressionError (mk_token NAME ''foo'' 1 2 5) ''Illegal method .foo'')"
    by (rule Inl_caseI) code_simp
  have 5: "Expression_init test_backend ''x.foo.bar''
       \<noteq> Inl (PinasExpressionError (mk_token NAME ''bar'' 1 6 9) ''Illegal method .bar'')"
    unfolding 4 by (simp add: mk_token_def)
  from 1 2 3 4 5 show ?thesis by blast
qed

text \<open>
  C4, amended: for every expression in which an identifier is a token that follows a
  \<^verbatim>\<open>.\<close> token (the last kept token before it is \<^verbatim>\<open>.\<close>) and is not in the allowed
  methods, the construction fails with a \<open>PinasExpressionError\<close>, whatever follows
  the identifier and whatever the tokenizer would raise later, and evaluation is never
  reached: no \<open>Expression\<close> exists, and a host that constructs and evaluates gets the
  error of the construction. The position reported is that of the first token the
  loop rejects: when the loop accepts all tokens before the identifier, the error is
  \<^verbatim>\<open>Illegal method .name\<close> at the identifier itself. (No operator token before the
  identifier is empty, as in every token stream of a tokenizer.) An attribute access
  written inside an f-string is not a token of the scan and is left out of this
  statement; see \<open>fstring_attribute_constructed\<close> below.
\<close>

theorem illegal_method_rejected:
  assumes "tok_type tok = NAME"
    and "last_kept None pre = Some p" and "tok_string p = ''.''"
    and "tok_string tok \<notin> allow_methods backend"
    and "operators_nonempty pre"
  shows "(\<exists>t m. Expression_init_tokens backend (pre @ tok # post, raised)
                  = Inl (PinasExpressionError t m))
       \<and> (\<forall>s. scan_tokens backend scan_start pre = Inr s \<longrightarrow>
              Expression_init_tokens backend (pre @ tok # post, raised)
                = Inl (PinasExpressionError tok (''Illegal method .'' @ tok_string tok)))
       \<and> (\<forall>text ns. generate_tokens text = Some (pre @ tok # post, raised) \<longrightarrow>
              (\<exists>t m. Expression_init backend text = Inl (PinasExpressionError t m)
                     \<and> compile_and_eval backend text ns = Inl (PinasExpressionError t m)))"
proof -
  have at_tok: "scan_tokens backend scan_start (pre @ tok # post)
                  = Inl (PinasExpressionError tok (''Illegal method .'' @ tok_string tok))"
    if ok: "scan_tokens backend scan_start pre = Inr s" for s
  proof -
    from scan_tokens_prev [OF ok] assms(2) have "prev s = Some p"
      by (simp add: scan_start_def)
    from scan_token_illegal_method [OF assms(1) this assms(3) assms(4)] ok show ?thesis
      by (simp add: scan_tokens_append)
  qed
  have some: "\<exists>t m. scan_tokens backend scan_start (pre @ tok # post) = Inl (PinasExpressionError t m)"
  proof (cases "scan_tokens backend scan_start pre")
    case (Inl e)
    from scan_tokens_error_kind [OF assms(5) Inl] Inl show ?thesis
      by (auto simp: scan_tokens_append)
  next
    case (Inr s)
    from at_tok [OF Inr] show ?thesis by blast
  qed
  from some obtain t m
    where tm: "scan_tokens backend scan_start (pre @ tok # post) = Inl (PinasExpressionError t m)"
    by blast
  have 1: "\<exists>t m. Expression_init_tokens backend (pre @ tok # post, raised)
                  = Inl (PinasExpressionError t m)"
    using Expression_init_tokens_Inl [OF tm] by blast
  have 2: "\<forall>s. scan_tokens backend scan_start pre = Inr s \<longrightarrow>
              Expression_init_tokens backend (pre @ tok # post, raised)
                = Inl (PinasExpressionError tok (''Illegal method .'' @ tok_string tok))"
    using at_tok Expression_init_tokens_Inl by blast
  have 3: "\<forall>text ns. generate_tokens text = Some (pre @ tok # post, raised) \<longrightarrow>
              (\<exists>t m. Expression_init backend text = Inl (PinasExpressionError t m)
                     \<and> compile_and_eval backend text ns = Inl (PinasExpressionError t m))"
    using Expression_init_tokens_Inl [OF tm]
    by (auto simp: Expression_init_def compile_and_eval_def)
  from 1 2 3 show ?thesis by blast
qed

text \<open>
  A witness for C4: \<^verbatim>\<open>1 . bit_length()\<close>, the expression of
  \<^verbatim>\<open>test_illegal_as_attribute\<close>.
\<close>

theorem illegal_method_rejected_witness:
  "Expression_init test_backend ''1 . bit_length()''
     = Inl (PinasExpressionError (mk_token NAME ''bit_length'' 1 4 14) ''Illegal method .bit_length'')
   \<and> compile_and_eval test_backend ''1 . bit_length()'' Map.empty
     = Inl (PinasExpressionError (mk_token NAME ''bit_length'' 1 4 14) ''Illegal method .bit_length'')"
proof -
  let ?pre = "[mk_token NUMBER ''1'' 1 0 1, mk_token OP ''.'' 1 2 3]"
  let ?tok = "mk_token NAME ''bit_length'' 1 4 14"
  let ?post = "[mk_token OP ''('' 1 14 15, mk_token OP '')'' 1 15 16,
                mk_token NEWLINE [] 1 16 17, mk_token ENDMARKER [] 2 0 0]"
  have h1: "tok_type ?tok = NAME" by (simp add: mk_token_def)
  have h2: "last_kept None ?pre = Some (mk_token OP ''.'' 1 2 3)"
    by (simp add: mk_token_def dropped_type_def)
  have h3: "tok_string (mk_token OP ''.'' 1 2 3) = ''.''" by (simp add: mk_token_def)
  have h4: "tok_string ?tok \<notin> allow_methods test_backend"
    by (simp add: test_backend_methods mk_token_def default_allow_methods_def)
  have h5: "operators_nonempty ?pre" by (simp add: operators_nonempty_def mk_token_def)
  have ok: "\<exists>s. scan_tokens test_backend scan_start ?pre = Inr s"
    by (simp add: scan_token_def check_token_def keep_token_def mk_token_def scan_start_def
          dropped_type_def)
  note inst = illegal_method_rejected [OF h1 h2 h3 h4 h5, of ?post None]
  from inst ok
  have a: "Expression_init_tokens test_backend (?pre @ ?tok # ?post, None)
             = Inl (PinasExpressionError ?tok (''Illegal method .'' @ tok_string ?tok))"
    by blast
  have s: "''Illegal method .'' @ tok_string ?tok = ''Illegal method .bit_length''"
    by (simp add: mk_token_def)
  from a s show ?thesis
    by (simp add: Expression_init_def compile_and_eval_def tokens_bit_length)
qed

text \<open>
  The scan sees tokens only. To the tokenizer of Python 3.10 and 3.11 an f-string is
  one \<open>STRING\<close> token, so in \<^verbatim>\<open>f'{a.real}'\<close> no \<open>NAME\<close> token follows a \<^verbatim>\<open>.\<close> token:
  the loop of lines 171-200 keeps the string, the expression is constructed with the
  text unchanged, and \<^verbatim>\<open>eval\<close> (line 255) is given the f-string, although \<^verbatim>\<open>real\<close> is
  not an allowed method. The whitelist of methods does not reach the inside of an
  f-string; the theorem above does not speak of this text, since its hypothesis asks
  for a \<open>NAME\<close> token.
\<close>

lemma fstring_attribute_constructed:
  "generate_tokens fstring_attribute
     = Some ([mk_token STRING fstring_attribute 1 0 11, mk_token NEWLINE [] 1 11 12,
              mk_token ENDMARKER [] 2 0 0], None)
   \<and> ''real'' \<notin> allow_methods test_backend
   \<and> \<not> isl (Expression_init test_backend fstring_attribute)
   \<and> expr (projr (Expression_init test_backend fstring_attribute)) = fstring_attribute
   \<and> net_tokens (projr (Expression_init test_backend fstring_attribute))
       = [mk_token STRING fstring_attribute 1 0 11]"
proof -
  have 1: "generate_tokens fstring_attribute
     = Some ([mk_token STRING fstring_attribute 1 0 11, mk_token NEWLINE [] 1 11 12,
              mk_token ENDMARKER [] 2 0 0], None)"
    by code_simp
  have 2: "''real'' \<notin> allow_methods test_backend"
    by (simp add: test_backend_methods default_allow_methods_def)
  have 3: "\<not> isl (Expression_init test_backend fstring_attribute)" by code_simp
  have 4: "expr (projr (Expression_init test_backend fstring_attribute)) = fstring_attribute"
    by code_simp
  have 5: "net_tokens (projr (Expression_init test_backend fstring_attribute))
       = [mk_token STRING fstring_attribute 1 0 11]"
    by code_simp
  from 1 2 3 4 5 show ?thesis by blast
qed


subsection \<open>Assignment operators and named parameters (C5)\<close>

text \<open>
  C5: for an operator token that ends in \<^verbatim>\<open>=\<close>, anywhere in the expression. (1) If it
  is the bare \<^verbatim>\<open>=\<close>, the construction fails with a \<open>PinasExpressionError\<close> unless the
  token before it (the last kept token; comments and line breaks are no tokens for
  the scan) is an identifier that is an eligible named parameter of some function the
  expression refers to, anywhere in it. (2) Every other operator that ends in \<^verbatim>\<open>=\<close>
  makes the construction fail with a \<open>PinasExpressionError\<close>, except \<^verbatim>\<open>==\<close>,
  \<^verbatim>\<open>!=\<close>, \<^verbatim>\<open><=\<close>, \<^verbatim>\<open>>=\<close>, (3) which the loop accepts in every state. (No
  operator token before it is empty, as in every token stream of a tokenizer.)
\<close>

theorem assignment_operators_rejected:
  assumes "operators_nonempty pre" and "tok_type tok = OP"
  shows "(tok_string tok = ''=''
            \<and> \<not> (\<exists>p. last_kept None pre = Some p \<and> tok_type p = NAME
                      \<and> tok_string p \<in> eligible_named_parameters backend (pre @ tok # post))
          \<longrightarrow> (\<exists>t m. Expression_init_tokens backend (pre @ tok # post, raised)
                        = Inl (PinasExpressionError t m)))
       \<and> (tok_string tok \<noteq> [] \<and> last (tok_string tok) = CHR ''=''
            \<and> tok_string tok \<notin> {''='', ''=='', ''!='', ''<='', ''>=''}
          \<longrightarrow> (\<exists>t m. Expression_init_tokens backend (pre @ tok # post, raised)
                        = Inl (PinasExpressionError t m)))
       \<and> (tok_string tok \<in> {''=='', ''!='', ''<='', ''>=''}
          \<longrightarrow> (\<forall>s. \<exists>s'. scan_token backend s tok = Inr s'))"
proof (intro conjI impI)
  assume a: "tok_string tok = ''=''
            \<and> \<not> (\<exists>p. last_kept None pre = Some p \<and> tok_type p = NAME
                      \<and> tok_string p \<in> eligible_named_parameters backend (pre @ tok # post))"
  show "\<exists>t m. Expression_init_tokens backend (pre @ tok # post, raised)
                = Inl (PinasExpressionError t m)"
  proof (rule scan_tokens_rejected_at [OF assms(1)])
    fix s
    assume ok: "scan_tokens backend scan_start pre = Inr s"
    have pv: "prev s = last_kept None pre"
      using scan_tokens_prev [OF ok] by (simp add: scan_start_def)
    have av: "available_named_parameter_names s \<subseteq> eligible_named_parameters backend (pre @ tok # post)"
      using scan_start_available [OF ok] eligible_named_parameters_prefix by simp
    have "\<not> (\<exists>p. prev s = Some p \<and> tok_type p = NAME
               \<and> tok_string p \<in> available_named_parameter_names s)"
      using a pv av by auto
    from scan_token_bare_assignment [OF assms(2) _ this] a
    show "\<exists>t m. scan_token backend s tok = Inl (PinasExpressionError t m)"
      by blast
  qed
next
  assume a: "tok_string tok \<noteq> [] \<and> last (tok_string tok) = CHR ''=''
            \<and> tok_string tok \<notin> {''='', ''=='', ''!='', ''<='', ''>=''}"
  show "\<exists>t m. Expression_init_tokens backend (pre @ tok # post, raised)
                = Inl (PinasExpressionError t m)"
  proof (rule scan_tokens_rejected_at [OF assms(1)])
    fix s
    from a scan_token_assignment_operator [OF assms(2), of backend s]
    show "\<exists>t m. scan_token backend s tok = Inl (PinasExpressionError t m)"
      by blast
  qed
next
  assume "tok_string tok \<in> {''=='', ''!='', ''<='', ''>=''}"
  from scan_token_comparison [OF assms(2) this]
  show "\<forall>s. \<exists>s'. scan_token backend s tok = Inr s'" by blast
qed

text \<open>
  A witness for C5: \<^verbatim>\<open>add(add=2, y=1)\<close> of \<^verbatim>\<open>test_unknown_named_att\<close>, an
  assignment expression, and a comparison.
\<close>

lemma tokens_unknown_named:
  "generate_tokens ''add(add=2, y=1)'' =
     Some ([mk_token NAME ''add'' 1 0 3, mk_token OP ''('' 1 3 4, mk_token NAME ''add'' 1 4 7]
             @ mk_token OP ''='' 1 7 8
             # [mk_token NUMBER ''2'' 1 8 9, mk_token OP '','' 1 9 10, mk_token NAME ''y'' 1 11 12,
                mk_token OP ''='' 1 12 13, mk_token NUMBER ''1'' 1 13 14, mk_token OP '')'' 1 14 15,
                mk_token NEWLINE [] 1 15 16, mk_token ENDMARKER [] 2 0 0], None)"
  by code_simp

lemma tokens_walrus:
  "generate_tokens ''(c := 1)'' =
     Some ([mk_token OP ''('' 1 0 1, mk_token NAME ''c'' 1 1 2]
             @ mk_token OP '':='' 1 3 5
             # [mk_token NUMBER ''1'' 1 6 7, mk_token OP '')'' 1 7 8,
                mk_token NEWLINE [] 1 8 9, mk_token ENDMARKER [] 2 0 0], None)"
  by code_simp

theorem assignment_operators_rejected_witness:
  "(\<exists>t m. Expression_init test_backend ''add(add=2, y=1)'' = Inl (PinasExpressionError t m))
   \<and> (\<exists>t m. Expression_init test_backend ''(c := 1)'' = Inl (PinasExpressionError t m))
   \<and> (\<exists>s'. scan_token test_backend scan_start (mk_token OP ''<='' 1 2 4) = Inr s')"
proof -
  let ?pre = "[mk_token NAME ''add'' 1 0 3, mk_token OP ''('' 1 3 4, mk_token NAME ''add'' 1 4 7]"
  let ?tok = "mk_token OP ''='' 1 7 8"
  let ?post = "[mk_token NUMBER ''2'' 1 8 9, mk_token OP '','' 1 9 10, mk_token NAME ''y'' 1 11 12,
                mk_token OP ''='' 1 12 13, mk_token NUMBER ''1'' 1 13 14, mk_token OP '')'' 1 14 15,
                mk_token NEWLINE [] 1 15 16, mk_token ENDMARKER [] 2 0 0]"
  have wf: "operators_nonempty ?pre" by (simp add: operators_nonempty_def mk_token_def)
  have op: "tok_type ?tok = OP" by (simp add: mk_token_def)
  have lk: "last_kept None ?pre = Some (mk_token NAME ''add'' 1 4 7)"
    by (simp add: mk_token_def dropped_type_def)
  have ne: "''add'' \<notin> eligible_named_parameters test_backend (?pre @ ?tok # ?post)"
    by code_simp
  have hyp: "tok_string ?tok = ''=''
            \<and> \<not> (\<exists>p. last_kept None ?pre = Some p \<and> tok_type p = NAME
                      \<and> tok_string p \<in> eligible_named_parameters test_backend (?pre @ ?tok # ?post))"
    using ne unfolding lk by (simp add: mk_token_def)
  from assignment_operators_rejected [OF wf op, of test_backend ?post None] hyp
  have 1: "\<exists>t m. Expression_init test_backend ''add(add=2, y=1)'' = Inl (PinasExpressionError t m)"
    by (simp add: Expression_init_def tokens_unknown_named)
  let ?pre2 = "[mk_token OP ''('' 1 0 1, mk_token NAME ''c'' 1 1 2]"
  let ?tok2 = "mk_token OP '':='' 1 3 5"
  let ?post2 = "[mk_token NUMBER ''1'' 1 6 7, mk_token OP '')'' 1 7 8,
                mk_token NEWLINE [] 1 8 9, mk_token ENDMARKER [] 2 0 0]"
  have wf2: "operators_nonempty ?pre2" by (simp add: operators_nonempty_def mk_token_def)
  have op2: "tok_type ?tok2 = OP" by (simp add: mk_token_def)
  have hyp2: "tok_string ?tok2 \<noteq> [] \<and> last (tok_string ?tok2) = CHR ''=''
            \<and> tok_string ?tok2 \<notin> {''='', ''=='', ''!='', ''<='', ''>=''}"
    by (simp add: mk_token_def)
  from assignment_operators_rejected [OF wf2 op2, of test_backend ?post2 None] hyp2
  have 2: "\<exists>t m. Expression_init test_backend ''(c := 1)'' = Inl (PinasExpressionError t m)"
    by (simp add: Expression_init_def tokens_walrus)
  have op3: "tok_type (mk_token OP ''<='' 1 2 4) = OP" by (simp add: mk_token_def)
  have hyp3: "tok_string (mk_token OP ''<='' 1 2 4) \<in> {''=='', ''!='', ''<='', ''>=''}"
    by (simp add: mk_token_def)
  from assignment_operators_rejected [OF wf2 op3, of test_backend ?post2 None] hyp3
  have 3: "\<exists>s'. scan_token test_backend scan_start (mk_token OP ''<='' 1 2 4) = Inr s'"
    by blast
  from 1 2 3 show ?thesis by blast
qed

text \<open>
  A function that the expression refers to after the \<^verbatim>\<open>=\<close> does not make the name
  eligible: the loop tests against the named parameters of the functions met so far.
  In \<^verbatim>\<open>max(x=1, add(1,2))\<close> the name \<^verbatim>\<open>x\<close> is a named parameter of \<^verbatim>\<open>add\<close> and the
  construction fails all the same.
\<close>

lemma named_parameter_of_later_function:
  "''x'' \<in> eligible_named_parameters test_backend (fst (the (generate_tokens ''max(x=1, add(1,2))'')))
   \<and> Expression_init test_backend ''max(x=1, add(1,2))''
       = Inl (PinasExpressionError (mk_token OP ''='' 1 5 6) ''No such named parameter: x'')"
proof -
  have 1: "''x'' \<in> eligible_named_parameters test_backend (fst (the (generate_tokens ''max(x=1, add(1,2))'')))"
    by code_simp
  have 2: "Expression_init test_backend ''max(x=1, add(1,2))''
       = Inl (PinasExpressionError (mk_token OP ''='' 1 5 6) ''No such named parameter: x'')"
    by (rule Inl_caseI) code_simp
  from 1 2 show ?thesis by blast
qed


subsection \<open>Implied parameters (C6)\<close>

text \<open>
  C6: (1) with the function \<^verbatim>\<open>f(x, *, d)\<close> registered, \<^verbatim>\<open>f(10)\<close> evaluates to 13 in
  the namespace \<^verbatim>\<open>{"d": 3}\<close>, (2) and in a namespace without \<^verbatim>\<open>d\<close> it fails with a
  \<open>PinasNameError\<close> whose names are exactly \<^verbatim>\<open>d\<close>; (3) the same for \<^verbatim>\<open>add_d(10)\<close> in
  the namespace of \<^verbatim>\<open>test_implied_argument\<close>. (4) For every function and namespace
  that holds a value for each implied parameter, the closure calls the function with
  keyword arguments in which every explicit keyword argument has its explicit value,
  also when its name is an implied parameter, and each implied parameter that is not
  given explicitly has the value of the namespace. (5) In
  \<^verbatim>\<open>name_collision(1, implied(2, b=5))\<close> with \<^verbatim>\<open>b = 1\<close> in the namespace the explicit 5
  reaches \<^verbatim>\<open>implied\<close>. (The scan accepts \<^verbatim>\<open>b=\<close> there because \<^verbatim>\<open>b\<close> is a named
  parameter of \<^verbatim>\<open>name_collision\<close>; an implied parameter is not a named parameter of
  its own function.)
\<close>

theorem implied_parameters_supplied:
  "compile_and_eval f_backend ''f(10)'' [''d'' \<mapsto> Val (VInt 3)] = Inr (Val (VInt 13))
   \<and> compile_and_eval f_backend ''f(10)'' Map.empty = Inl (PinasNameError {''d''})
   \<and> compile_and_eval test_backend ''add_d(10)''
        [''a'' \<mapsto> Val (VInt 0), ''b'' \<mapsto> Val (VInt 1), ''c'' \<mapsto> Val (VInt 2), ''d'' \<mapsto> Val (VInt 3)]
       = Inr (Val (VInt 13))
   \<and> ((\<forall>iarg \<in> set (ImpliedArguments fn). \<exists>w. namespace iarg = Some (Val w))
        \<and> distinct (map fst kwargs)
      \<longrightarrow> (\<exists>full_kwargs.
             supply_namespace_args fn namespace args kwargs = call_function fn args full_kwargs
           \<and> (\<forall>k v. map_of kwargs k = Some v \<longrightarrow> map_of full_kwargs k = Some v)
           \<and> (\<forall>k \<in> set (ImpliedArguments fn). k \<notin> fst ` set kwargs \<longrightarrow>
                 map_of full_kwargs k = Some (the_Val (the (namespace k))))))
   \<and> compile_and_eval test_backend ''name_collision(1, implied(2, b=5))'' [''b'' \<mapsto> Val (VInt 1)]
       = Inr (Val (VTuple [VInt 1, VTuple [VInt 2, VInt 5]]))"
proof -
  have 1: "compile_and_eval f_backend ''f(10)'' [''d'' \<mapsto> Val (VInt 3)] = Inr (Val (VInt 13))"
    by (rule Inr_Val_caseI) code_simp
  have 2: "compile_and_eval f_backend ''f(10)'' Map.empty = Inl (PinasNameError {''d''})"
    by (rule Inl_caseI) code_simp
  have 3: "compile_and_eval test_backend ''add_d(10)''
        [''a'' \<mapsto> Val (VInt 0), ''b'' \<mapsto> Val (VInt 1), ''c'' \<mapsto> Val (VInt 2), ''d'' \<mapsto> Val (VInt 3)]
       = Inr (Val (VInt 13))"
    by (rule Inr_Val_caseI) code_simp
  have 4: "(\<forall>iarg \<in> set (ImpliedArguments fn). \<exists>w. namespace iarg = Some (Val w))
        \<and> distinct (map fst kwargs)
      \<longrightarrow> (\<exists>full_kwargs.
             supply_namespace_args fn namespace args kwargs = call_function fn args full_kwargs
           \<and> (\<forall>k v. map_of kwargs k = Some v \<longrightarrow> map_of full_kwargs k = Some v)
           \<and> (\<forall>k \<in> set (ImpliedArguments fn). k \<notin> fst ` set kwargs \<longrightarrow>
                 map_of full_kwargs k = Some (the_Val (the (namespace k)))))"
  proof
    assume a: "(\<forall>iarg \<in> set (ImpliedArguments fn). \<exists>w. namespace iarg = Some (Val w))
        \<and> distinct (map fst kwargs)"
    let ?d = "fold (\<lambda>iarg d. AList.update iarg (the_Val (the (namespace iarg))) d)
                   (ImpliedArguments fn) []"
    let ?full = "dict_update ?d kwargs"
    from a have s: "supply_namespace_args fn namespace args kwargs = call_function fn args ?full"
      by (intro supply_namespace_args_supplied) simp
    from a have e: "\<forall>k v. map_of kwargs k = Some v \<longrightarrow> map_of ?full k = Some v"
      by (simp add: map_of_dict_update_explicit)
    have i: "\<forall>k \<in> set (ImpliedArguments fn). k \<notin> fst ` set kwargs \<longrightarrow>
                 map_of ?full k = Some (the_Val (the (namespace k)))"
      by (simp add: map_of_dict_update_implied map_of_implied)
    from s e i show "\<exists>full_kwargs.
             supply_namespace_args fn namespace args kwargs = call_function fn args full_kwargs
           \<and> (\<forall>k v. map_of kwargs k = Some v \<longrightarrow> map_of full_kwargs k = Some v)
           \<and> (\<forall>k \<in> set (ImpliedArguments fn). k \<notin> fst ` set kwargs \<longrightarrow>
                 map_of full_kwargs k = Some (the_Val (the (namespace k))))"
      by blast
  qed
  have 5: "compile_and_eval test_backend ''name_collision(1, implied(2, b=5))'' [''b'' \<mapsto> Val (VInt 1)]
       = Inr (Val (VTuple [VInt 1, VTuple [VInt 2, VInt 5]]))"
    by (rule Inr_Val_caseI) code_simp
  from 1 2 3 4 5 show ?thesis by blast
qed


text \<open>
  A witness for C6: the closure of \<^verbatim>\<open>implied(x, *, b)\<close> called with and without an
  explicit \<^verbatim>\<open>b\<close>.
\<close>

theorem implied_parameters_supplied_witness:
  "(\<exists>full_kwargs.
      supply_namespace_args test_implied [''b'' \<mapsto> Val (VInt 1)] [VInt 2] [(''b'', VInt 5)]
        = call_function test_implied [VInt 2] full_kwargs
      \<and> map_of full_kwargs ''b'' = Some (VInt 5))
   \<and> supply_namespace_args test_implied [''b'' \<mapsto> Val (VInt 1)] [VInt 2] [(''b'', VInt 5)]
       = Inr (VTuple [VInt 2, VInt 5])
   \<and> supply_namespace_args test_implied [''b'' \<mapsto> Val (VInt 1)] [VInt 2] []
       = Inr (VTuple [VInt 2, VInt 1])"
proof -
  have h: "(\<forall>iarg \<in> set (ImpliedArguments test_implied).
              \<exists>w. [''b'' \<mapsto> Val (VInt 1)] iarg = Some (Val w))
           \<and> distinct (map fst [(''b'', VInt 5)])"
    by (simp add: ImpliedArguments_test_implied)
  have m: "map_of [(''b'', VInt 5)] ''b'' = Some (VInt 5)" by simp
  from implied_parameters_supplied [of test_implied "[''b'' \<mapsto> Val (VInt 1)]" "[(''b'', VInt 5)]" "[VInt 2]"] h
  obtain full_kwargs where
    f: "supply_namespace_args test_implied [''b'' \<mapsto> Val (VInt 1)] [VInt 2] [(''b'', VInt 5)]
          = call_function test_implied [VInt 2] full_kwargs"
    and e: "\<forall>k v. map_of [(''b'', VInt 5)] k = Some v \<longrightarrow> map_of full_kwargs k = Some v"
    by blast
  from e m have "map_of full_kwargs ''b'' = Some (VInt 5)" by blast
  with f have 1: "\<exists>full_kwargs.
      supply_namespace_args test_implied [''b'' \<mapsto> Val (VInt 1)] [VInt 2] [(''b'', VInt 5)]
        = call_function test_implied [VInt 2] full_kwargs
      \<and> map_of full_kwargs ''b'' = Some (VInt 5)"
    by blast
  have 2: "supply_namespace_args test_implied [''b'' \<mapsto> Val (VInt 1)] [VInt 2] [(''b'', VInt 5)]
       = Inr (VTuple [VInt 2, VInt 5])"
    by code_simp
  have 3: "supply_namespace_args test_implied [''b'' \<mapsto> Val (VInt 1)] [VInt 2] []
       = Inr (VTuple [VInt 2, VInt 1])"
    by code_simp
  from 1 2 3 show ?thesis by blast
qed


subsection \<open>The names a failed evaluation reports (C7)\<close>

text \<open>
  C7, as stated: whenever the evaluation fails because a needed name is missing, the
  error carries exactly the free variables that the namespace does not supply. A
  missing implied parameter is reported by the closure of its function
  (\<^verbatim>\<open>supply_namespace_args\<close>, line 93), which lists the unresolved implied parameters
  of that function only, and \<^verbatim>\<open>eval\<close> lets a \<open>PinasNameError\<close> pass: in
  \<^verbatim>\<open>add_d(10) + a\<close> with the empty namespace the free variables \<^verbatim>\<open>a\<close> and \<^verbatim>\<open>d\<close> are
  both missing and the error carries \<^verbatim>\<open>d\<close> alone.
\<close>

theorem missing_names_closure_counterexample:
  "\<not> isl (Expression_init test_backend ''add_d(10) + a'')
   \<and> free_variables (projr (Expression_init test_backend ''add_d(10) + a'')) = {''a'', ''d''}
   \<and> Expression_eval (projr (Expression_init test_backend ''add_d(10) + a'')) Map.empty
       = Inl (PinasNameError {''d''})
   \<and> {''d''} \<noteq> {''a'', ''d''}"
proof -
  have 1: "\<not> isl (Expression_init test_backend ''add_d(10) + a'')" by code_simp
  have 2: "free_variables (projr (Expression_init test_backend ''add_d(10) + a'')) = {''a'', ''d''}"
    by code_simp
  have 3: "Expression_eval (projr (Expression_init test_backend ''add_d(10) + a'')) Map.empty
       = Inl (PinasNameError {''d''})"
    by (rule Inl_caseI) code_simp
  have 4: "{''d''} \<noteq> {''a'', ''d''}" by auto
  from 1 2 3 4 show ?thesis by blast
qed

text \<open>
  C7, amended: let the effective environment be built and let \<^verbatim>\<open>missing\<close> be the free
  variables without a value in the namespace. (1) When Python's \<^verbatim>\<open>eval\<close> raises
  \<^verbatim>\<open>NameError\<close> for a name in \<^verbatim>\<open>missing\<close>, \<^verbatim>\<open>Expression.eval\<close> raises
  \<open>PinasNameError\<close> with exactly \<^verbatim>\<open>missing\<close> (all of it, not only the name met, and no
  name the caller supplied). (2) A \<^verbatim>\<open>NameError\<close> for another name, or without a
  name, (3) and every other exception, the \<open>PinasNameError\<close> of a closure among them,
  is propagated unchanged, (4) as is a value. (5) \<^verbatim>\<open>a + b\<close> in the namespace
  \<^verbatim>\<open>{"a": 1}\<close> fails with exactly \<^verbatim>\<open>b\<close>. The statement holds for whatever Python's
  \<^verbatim>\<open>eval\<close> does, not only for the evaluator of this theory.
\<close>

theorem missing_names_reported:
  assumes "effective_namespace e ns = Inr env"
  shows "(ev (expr e) env = Inl (NameError (Some n)) \<and> n \<in> free_variables e \<and> ns n = None
          \<longrightarrow> Expression_eval_with ev e ns
                = Inl (PinasNameError {ident \<in> free_variables e. ns ident = None}))
       \<and> (ev (expr e) env = Inl (NameError nm)
            \<and> (case nm of None \<Rightarrow> True | Some n \<Rightarrow> \<not> (n \<in> free_variables e \<and> ns n = None))
          \<longrightarrow> Expression_eval_with ev e ns = Inl (NameError nm))
       \<and> (ev (expr e) env = Inl x \<and> (\<forall>nm. x \<noteq> NameError nm)
          \<longrightarrow> Expression_eval_with ev e ns = Inl x)
       \<and> (ev (expr e) env = Inr v \<longrightarrow> Expression_eval_with ev e ns = Inr v)
       \<and> compile_and_eval test_backend ''a + b'' [''a'' \<mapsto> Val (VInt 1)]
           = Inl (PinasNameError {''b''})"
proof -
  have 1: "ev (expr e) env = Inl (NameError (Some n)) \<and> n \<in> free_variables e \<and> ns n = None
          \<longrightarrow> Expression_eval_with ev e ns
                = Inl (PinasNameError {ident \<in> free_variables e. ns ident = None})"
    by (simp add: Expression_eval_with_def assms except_NameError_simps)
  have 2: "ev (expr e) env = Inl (NameError nm)
            \<and> (case nm of None \<Rightarrow> True | Some n \<Rightarrow> \<not> (n \<in> free_variables e \<and> ns n = None))
          \<longrightarrow> Expression_eval_with ev e ns = Inl (NameError nm)"
    by (cases nm) (auto simp: Expression_eval_with_def assms except_NameError_simps)
  have 3: "ev (expr e) env = Inl x \<and> (\<forall>nm. x \<noteq> NameError nm)
          \<longrightarrow> Expression_eval_with ev e ns = Inl x"
    by (simp add: Expression_eval_with_def assms except_NameError_simps)
  have 4: "ev (expr e) env = Inr v \<longrightarrow> Expression_eval_with ev e ns = Inr v"
    by (simp add: Expression_eval_with_def assms except_NameError_simps)
  have 5: "compile_and_eval test_backend ''a + b'' [''a'' \<mapsto> Val (VInt 1)]
           = Inl (PinasNameError {''b''})"
    by (rule Inl_caseI) code_simp
  from 1 2 3 4 5 show ?thesis by blast
qed

text \<open>
  A witness for C7: \<^verbatim>\<open>a + b\<close> without \<^verbatim>\<open>b\<close>, and the error of a closure passing
  through.
\<close>

theorem missing_names_reported_witness:
  "Expression_eval (projr (Expression_init test_backend ''a + b'')) [''a'' \<mapsto> Val (VInt 1)]
     = Inl (PinasNameError {ident \<in> free_variables (projr (Expression_init test_backend ''a + b'')).
                              [''a'' \<mapsto> Val (VInt 1)] ident = None})
   \<and> {ident \<in> free_variables (projr (Expression_init test_backend ''a + b'')).
         [''a'' \<mapsto> Val (VInt 1)] ident = None} = {''b''}
   \<and> Expression_eval (projr (Expression_init test_backend ''add_d(10) + a'')) Map.empty
       = Inl (PinasNameError {''d''})"
proof -
  let ?e = "projr (Expression_init test_backend ''a + b'')"
  let ?ns = "[''a'' \<mapsto> Val (VInt 1)]"
  let ?env = "projr (effective_namespace ?e ?ns)"
  have "\<not> isl (effective_namespace ?e ?ns)" by code_simp
  then have eff: "effective_namespace ?e ?ns = Inr ?env" by (rule not_isl_projr)
  have r: "py_eval (expr ?e) ?env = Inl (NameError (Some ''b''))"
    by (rule Inl_caseI) code_simp
  have f: "''b'' \<in> free_variables ?e" by code_simp
  have n: "?ns ''b'' = None" by simp
  from missing_names_reported [OF eff, of py_eval "''b''"] r f n
  have 1: "Expression_eval ?e ?ns = Inl (PinasNameError {ident \<in> free_variables ?e. ?ns ident = None})"
    unfolding Expression_eval_def by blast
  have 2: "{ident \<in> free_variables ?e. ?ns ident = None} = {''b''}" by code_simp
  let ?e2 = "projr (Expression_init test_backend ''add_d(10) + a'')"
  let ?env2 = "projr (effective_namespace ?e2 Map.empty)"
  have "\<not> isl (effective_namespace ?e2 Map.empty)" by code_simp
  then have eff2: "effective_namespace ?e2 Map.empty = Inr ?env2" by (rule not_isl_projr)
  have r2: "py_eval (expr ?e2) ?env2 = Inl (PinasNameError {''d''})"
    by (rule Inl_caseI) code_simp
  from missing_names_reported [OF eff2, of py_eval _ _ "PinasNameError {''d''}"] r2
  have 3: "Expression_eval ?e2 Map.empty = Inl (PinasNameError {''d''})"
    unfolding Expression_eval_def by blast
  from 1 2 3 show ?thesis by blast
qed


subsection \<open>The conditional expression is lazy (C8)\<close>

text \<open>
  C8: the evaluation of a conditional expression evaluates the test and then only the
  branch that the test selects, so the other branch may refer to a free variable that
  the namespace does not supply. (1) For the evaluator: the value of
  \<^verbatim>\<open>body if test else orelse\<close> is the value of the selected branch, whatever the other
  one is. (2) For \<^verbatim>\<open>Expression.eval\<close>: when the text of the expression is such a
  conditional and its test is true, the result is the result for \<^verbatim>\<open>body\<close> alone.
  (3) \<^verbatim>\<open>1 if True else undefined_var\<close> compiles with the backend of the tests,
  \<^verbatim>\<open>undefined_var\<close> is a free variable of it, and it evaluates to 1 in the empty
  namespace.
\<close>

theorem conditional_is_lazy:
  "(eval_expr env test = Inr c \<longrightarrow>
      eval_expr env (IfExp test body orelse)
        = (if truthy c then eval_expr env body else eval_expr env orelse))
   \<and> (effective_namespace e ns = Inr env \<and> generate_tokens (expr e) = Some (toks, None)
        \<and> py_parse toks = Inr (IfExp test body orelse) \<and> eval_expr env test = Inr c \<and> truthy c
      \<longrightarrow> Expression_eval e ns
            = except_NameError {ident \<in> free_variables e. ns ident = None} (eval_expr env body))
   \<and> \<not> isl (Expression_init test_backend ''1 if True else undefined_var'')
   \<and> ''undefined_var'' \<in> free_variables (projr (Expression_init test_backend ''1 if True else undefined_var''))
   \<and> Expression_eval (projr (Expression_init test_backend ''1 if True else undefined_var'')) Map.empty
       = Inr (Val (VInt 1))
   \<and> compile_and_eval test_backend ''1 if True else undefined_var'' Map.empty = Inr (Val (VInt 1))"
proof -
  let ?e = "projr (Expression_init test_backend ''1 if True else undefined_var'')"
  have 1: "eval_expr env test = Inr c \<longrightarrow>
      eval_expr env (IfExp test body orelse)
        = (if truthy c then eval_expr env body else eval_expr env orelse)"
    by simp
  have 2: "effective_namespace e ns = Inr env \<and> generate_tokens (expr e) = Some (toks, None)
        \<and> py_parse toks = Inr (IfExp test body orelse) \<and> eval_expr env test = Inr c \<and> truthy c
      \<longrightarrow> Expression_eval e ns
            = except_NameError {ident \<in> free_variables e. ns ident = None} (eval_expr env body)"
  proof
    assume a: "effective_namespace e ns = Inr env \<and> generate_tokens (expr e) = Some (toks, None)
        \<and> py_parse toks = Inr (IfExp test body orelse) \<and> eval_expr env test = Inr c \<and> truthy c"
    then have "eval_expr env (IfExp test body orelse) = eval_expr env body" by simp
    with Expression_eval_parsed [of e ns env toks "IfExp test body orelse"] a
    show "Expression_eval e ns
            = except_NameError {ident \<in> free_variables e. ns ident = None} (eval_expr env body)"
      by simp
  qed
  have 3: "\<not> isl (Expression_init test_backend ''1 if True else undefined_var'')" by code_simp
  have 4: "''undefined_var'' \<in> free_variables ?e" by code_simp
  have 5: "Expression_eval ?e Map.empty = Inr (Val (VInt 1))"
    by (rule Inr_Val_caseI) code_simp
  have 6: "compile_and_eval test_backend ''1 if True else undefined_var'' Map.empty = Inr (Val (VInt 1))"
    by (rule Inr_Val_caseI) code_simp
  from 1 2 3 4 5 6 show ?thesis by blast
qed

text \<open>
  A witness for C8: the untaken branch names a variable that is nowhere bound, in the
  evaluator and in \<^verbatim>\<open>c if b else a\<close> without a value for \<^verbatim>\<open>a\<close>.
\<close>

theorem conditional_is_lazy_witness:
  "eval_expr Map.empty (IfExp (Constant (VBool False)) (Name ''undefined_var'') (Constant (VInt 2)))
     = Inr (Val (VInt 2))
   \<and> Expression_eval (projr (Expression_init test_backend ''c if b else a''))
        [''b'' \<mapsto> Val (VInt 1), ''c'' \<mapsto> Val (VInt 2)] = Inr (Val (VInt 2))"
proof -
  let ?e = "projr (Expression_init test_backend ''c if b else a'')"
  let ?ns = "[''b'' \<mapsto> Val (VInt 1), ''c'' \<mapsto> Val (VInt 2)]"
  let ?env = "projr (effective_namespace ?e ?ns)"
  let ?toks = "[mk_token NAME ''c'' 1 0 1, mk_token NAME ''if'' 1 2 4, mk_token NAME ''b'' 1 5 6,
                mk_token NAME ''else'' 1 7 11, mk_token NAME ''a'' 1 12 13,
                mk_token NEWLINE [] 1 13 14, mk_token ENDMARKER [] 2 0 0]"
  have t: "eval_expr Map.empty (Constant (VBool False)) = Inr (Val (VBool False))" by simp
  from conditional_is_lazy [of Map.empty "Constant (VBool False)" "Val (VBool False)"
      "Name ''undefined_var''" "Constant (VInt 2)"] t
  have 1: "eval_expr Map.empty (IfExp (Constant (VBool False)) (Name ''undefined_var'') (Constant (VInt 2)))
     = Inr (Val (VInt 2))"
    by simp
  have "\<not> isl (effective_namespace ?e ?ns)" by code_simp
  then have eff: "effective_namespace ?e ?ns = Inr ?env" by (rule not_isl_projr)
  have ex: "expr ?e = ''c if b else a''" by code_simp
  have tk: "generate_tokens (expr ?e) = Some (?toks, None)" unfolding ex by code_simp
  have pa: "py_parse ?toks = Inr (IfExp (Name ''b'') (Name ''c'') (Name ''a''))" by code_simp
  have tb: "eval_expr ?env (Name ''b'') = Inr (Val (VInt 1))"
    by (rule Inr_Val_caseI) code_simp
  have tc: "eval_expr ?env (Name ''c'') = Inr (Val (VInt 2))"
    by (rule Inr_Val_caseI) code_simp
  from conditional_is_lazy [of ?env "Name ''b''" "Val (VInt 1)" "Name ''c''" "Name ''a''" ?e ?ns ?toks]
    eff tk pa tb tc
  have 2: "Expression_eval ?e ?ns = Inr (Val (VInt 2))"
    by (simp add: except_NameError_def)
  from 1 2 show ?thesis by blast
qed


subsection \<open>The normalised text (C9)\<close>

text \<open>
  C9, as stated: tokens on one line that only blanks separate are rejoined with single
  blanks. The loop puts as many blanks between them as columns lay between them
  (line 168): \<^verbatim>\<open>1  +  2\<close> with two blanks at each side of the operator stays as it
  is.
\<close>

theorem single_space_counterexample:
  "generate_tokens ''1  +  2'' =
     Some ([mk_token NUMBER ''1'' 1 0 1, mk_token OP ''+'' 1 3 4, mk_token NUMBER ''2'' 1 6 7,
            mk_token NEWLINE [] 1 7 8, mk_token ENDMARKER [] 2 0 0], None)
   \<and> \<not> isl (Expression_init test_backend ''1  +  2'')
   \<and> expr (projr (Expression_init test_backend ''1  +  2'')) = ''1  +  2''
   \<and> expr (projr (Expression_init test_backend ''1  +  2'')) \<noteq> ''1 + 2''"
proof -
  have 1: "generate_tokens ''1  +  2'' =
     Some ([mk_token NUMBER ''1'' 1 0 1, mk_token OP ''+'' 1 3 4, mk_token NUMBER ''2'' 1 6 7,
            mk_token NEWLINE [] 1 7 8, mk_token ENDMARKER [] 2 0 0], None)"
    by code_simp
  have 2: "\<not> isl (Expression_init test_backend ''1  +  2'')" by code_simp
  have 3: "expr (projr (Expression_init test_backend ''1  +  2'')) = ''1  +  2''" by code_simp
  have 4: "expr (projr (Expression_init test_backend ''1  +  2'')) \<noteq> ''1 + 2''"
    unfolding 3 by simp
  from 1 2 3 4 show ?thesis by blast
qed

text \<open>
  C9, amended: for every token stream that the construction accepts, the normalised
  text is the stripped text in which each token stands behind a gap that depends on
  where the last kept token ended: (1) nothing when it starts there, as many blanks as
  columns lie between on the same line (the spacing inside a line is kept, not reduced
  to one blank), two blanks when it starts on another line; comments, line breaks,
  indents and the end marker get such a gap and no text, and the token list keeps
  the other tokens in order. (2) Hence a line break between two tokens becomes two
  blanks, and more where blanks or a comment stand before the break. (3) The
  normalised text is what is evaluated: \<^verbatim>\<open>1 +\<close> and \<^verbatim>\<open>2\<close> on two lines become
  \<^verbatim>\<open>1 +  2\<close> and evaluate to 3, while Python's \<^verbatim>\<open>eval\<close> rejects the original text;
  a bracketed expression over two lines with a comment evaluates to 3 as well.
\<close>

theorem layout_normalised:
  "(Expression_init_tokens backend (toks, raised) = Inr e \<longrightarrow>
      expr e = strip (normal_text (1, 0) toks)
      \<and> net_tokens e = filter (\<lambda>t. \<not> dropped_type (tok_type t)) toks)
   \<and> gap_text (r, c) (r, c) = []
   \<and> (c \<noteq> c' \<longrightarrow> gap_text (r, c') (r, c) = replicate (c - c') CHR '' '')
   \<and> (r \<noteq> r' \<longrightarrow> gap_text (r', c') (r, c) = ''  '')
   \<and> expr (projr (Expression_init test_backend ''1 +\<newline>2'')) = ''1 +  2''
   \<and> compile_and_eval test_backend ''1 +\<newline>2'' Map.empty = Inr (Val (VInt 3))
   \<and> py_eval ''1 +\<newline>2'' env = Inl SyntaxError
   \<and> expr (projr (Expression_init test_backend ''(1 + # one\<newline> 2)'')) = ''(1 +         2)''
   \<and> compile_and_eval test_backend ''(1 + # one\<newline> 2)'' Map.empty = Inr (Val (VInt 3))"
proof -
  have 1: "Expression_init_tokens backend (toks, raised) = Inr e \<longrightarrow>
      expr e = strip (normal_text (1, 0) toks)
      \<and> net_tokens e = filter (\<lambda>t. \<not> dropped_type (tok_type t)) toks"
    using Expression_init_tokens_text by blast
  have 2: "gap_text (r, c) (r, c) = []" by (simp add: gap_text_def)
  have 3: "c \<noteq> c' \<longrightarrow> gap_text (r, c') (r, c) = replicate (c - c') CHR '' ''"
    by (simp add: gap_text_def)
  have 4: "r \<noteq> r' \<longrightarrow> gap_text (r', c') (r, c) = ''  ''"
    by (simp add: gap_text_def)
  have 5: "expr (projr (Expression_init test_backend ''1 +\<newline>2'')) = ''1 +  2''"
    by code_simp
  have 6: "compile_and_eval test_backend ''1 +\<newline>2'' Map.empty = Inr (Val (VInt 3))"
    by (rule Inr_Val_caseI) code_simp
  have t: "generate_tokens ''1 +\<newline>2'' =
             Some ([mk_token NUMBER ''1'' 1 0 1, mk_token OP ''+'' 1 2 3,
                    mk_token NEWLINE ''\<newline>'' 1 3 4, mk_token NUMBER ''2'' 2 0 1,
                    mk_token NEWLINE [] 2 1 2, mk_token ENDMARKER [] 3 0 0], None)"
    by code_simp
  have p: "py_parse [mk_token NUMBER ''1'' 1 0 1, mk_token OP ''+'' 1 2 3,
                    mk_token NEWLINE ''\<newline>'' 1 3 4, mk_token NUMBER ''2'' 2 0 1,
                    mk_token NEWLINE [] 2 1 2, mk_token ENDMARKER [] 3 0 0] = Inl SyntaxError"
    by code_simp
  have 7: "py_eval ''1 +\<newline>2'' env = Inl SyntaxError"
    using py_eval_syntax_error [OF t p] .
  have 8: "expr (projr (Expression_init test_backend ''(1 + # one\<newline> 2)'')) = ''(1 +         2)''"
    by code_simp
  have 9: "compile_and_eval test_backend ''(1 + # one\<newline> 2)'' Map.empty = Inr (Val (VInt 3))"
    by (rule Inr_Val_caseI) code_simp
  from 1 2 3 4 5 6 7 8 9 show ?thesis by blast
qed

text \<open>A witness for C9: the two-line expression.\<close>

theorem layout_normalised_witness:
  "expr (projr (Expression_init test_backend ''1 +\<newline>2''))
     = strip (normal_text (1, 0) (fst (the (generate_tokens ''1 +\<newline>2''))))
   \<and> strip (normal_text (1, 0) (fst (the (generate_tokens ''1 +\<newline>2'')))) = ''1 +  2''
   \<and> map tok_string (net_tokens (projr (Expression_init test_backend ''1 +\<newline>2'')))
       = [''1'', ''+'', ''2'']
   \<and> gap_text (1, 1) (1, 3) = ''  ''
   \<and> gap_text (1, 3) (2, 0) = ''  ''"
proof -
  let ?T = "''1 +\<newline>2''"
  let ?toks = "fst (the (generate_tokens ?T))"
  have c: "\<not> isl (Expression_init test_backend ?T)" by code_simp
  have r: "snd (the (generate_tokens ?T)) = None" by code_simp
  have "Expression_init_tokens test_backend (?toks, snd (the (generate_tokens ?T)))
          = Inr (projr (Expression_init test_backend ?T))"
    using Expression_init_projr [OF c] by simp
  then have i: "Expression_init_tokens test_backend (?toks, None)
          = Inr (projr (Expression_init test_backend ?T))"
    unfolding r .
  note inst = layout_normalised [of test_backend ?toks None "projr (Expression_init test_backend ?T)"
      1 3 1 2]
  from inst i have 1: "expr (projr (Expression_init test_backend ?T)) = strip (normal_text (1, 0) ?toks)"
    by blast
  have 2: "strip (normal_text (1, 0) ?toks) = ''1 +  2''" by code_simp
  from inst i have "net_tokens (projr (Expression_init test_backend ?T))
                      = filter (\<lambda>t. \<not> dropped_type (tok_type t)) ?toks"
    by blast
  moreover have "map tok_string (filter (\<lambda>t. \<not> dropped_type (tok_type t)) ?toks) = [''1'', ''+'', ''2'']"
    by code_simp
  ultimately have 3: "map tok_string (net_tokens (projr (Expression_init test_backend ?T)))
       = [''1'', ''+'', ''2'']"
    by simp
  from inst have 4: "gap_text (1, 1) (1, 3) = ''  ''" by (simp add: numeral_2_eq_2)
  from layout_normalised [of test_backend ?toks None "projr (Expression_init test_backend ?T)"
      2 0 3 1]
  have 5: "gap_text (1, 3) (2, 0) = ''  ''" by simp
  from 1 2 3 4 5 show ?thesis by blast
qed


subsection \<open>The builtins of an evaluation (C10)\<close>

text \<open>
  C10, as stated: the base environment of every compiled expression binds
  \<^verbatim>\<open>__builtins__\<close> to an empty mapping. The entries of the bound names are written
  over \<^verbatim>\<open>dict(__builtins__=dict())\<close> (lines 216 to 218), so a registry whose module
  lists \<^verbatim>\<open>__builtins__\<close> in its \<^verbatim>\<open>__all__\<close> replaces the empty mapping by the
  module's attribute in every expression that refers to that name, and the
  expression evaluates to it.
\<close>

theorem builtins_overwritten_counterexample:
  "\<not> isl (Backend_init py_builtins builtins_module None None None)
   \<and> \<not> isl (Expression_init builtins_backend ''__builtins__'')
   \<and> base_namespace (projr (Expression_init builtins_backend ''__builtins__'')) ''__builtins__''
       = Some (Dict [(''open'', Builtin builtin_unmodelled)])
   \<and> base_namespace (projr (Expression_init builtins_backend ''__builtins__'')) ''__builtins__''
       \<noteq> Some (Dict [])
   \<and> Expression_eval (projr (Expression_init builtins_backend ''__builtins__'')) Map.empty
       = Inr (Dict [(''open'', Builtin builtin_unmodelled)])"
proof -
  let ?e = "projr (Expression_init builtins_backend ''__builtins__'')"
  have 1: "\<not> isl (Backend_init py_builtins builtins_module None None None)" by code_simp
  have 2: "\<not> isl (Expression_init builtins_backend ''__builtins__'')" by code_simp
  have "\<forall>n \<in> set (module_all builtins_module). module_getattr builtins_module n \<noteq> None"
    by (simp add: builtins_module_def)
  from Backend_init_default [OF this]
  have pf: "predefined_functions builtins_backend ''__builtins__''
              = Some (Dict [(''open'', Builtin builtin_unmodelled)])"
    and sl: "SupplyImpliedArguments_for builtins_backend = []"
    by (simp_all add: builtins_backend_def builtins_module_def map_add_def restrict_map_def
          dict_keys_of_def)
  from Expression_init_tokens_finish [OF Expression_init_projr [OF 2]]
  obtain s where s: "finish_scan builtins_backend s = Inr ?e" ..
  have pn: "''__builtins__'' \<in> predefined_names_of ?e" by code_simp
  have 3: "base_namespace ?e ''__builtins__'' = Some (Dict [(''open'', Builtin builtin_unmodelled)])"
    unfolding finish_scan_names(3) [OF s] using pn pf
    by (simp add: map_add_def restrict_map_def)
  have 4: "base_namespace ?e ''__builtins__'' \<noteq> Some (Dict [])"
    unfolding 3 by simp
  have fv: "free_variables ?e = {}" by code_simp
  have ex: "expr ?e = ''__builtins__''" by code_simp
  have eff: "effective_namespace ?e Map.empty = Inr (base_namespace ?e)"
    unfolding compiled_effective_namespace [OF Expression_init_projr [OF 2]]
      finish_scan_names(5) [OF s] sl fv by simp
  have 5: "Expression_eval ?e Map.empty = Inr (Dict [(''open'', Builtin builtin_unmodelled)])"
    unfolding Expression_eval_def Expression_eval_with_def eff ex
    by (simp add: py_eval_builtins_name lookup_name_def 3 except_NameError_def)
  from 1 2 3 4 5 show ?thesis by blast
qed

text \<open>
  C10, amended: for a backend that \<^verbatim>\<open>Backend.__init__\<close> has constructed and in which
  \<^verbatim>\<open>__builtins__\<close> is not a predefined name (neither in the module's \<^verbatim>\<open>__all__\<close> nor
  among the allowed builtin names), the base environment of every compiled expression
  binds \<^verbatim>\<open>__builtins__\<close> to the empty dictionary and its bound names are predefined
  names of the backend; every effective environment, for every namespace, binds
  \<^verbatim>\<open>__builtins__\<close> to the empty dictionary too, binds nothing but that key, the bound
  names and the free variables that the namespace supplies, and the lookup of any other
  name raises \<^verbatim>\<open>NameError\<close>: the builtins give it nothing.
\<close>

theorem builtins_hidden:
  assumes "Backend_init builtins m abn akw am = Inr backend"
    and "Expression_init_tokens backend stream = Inr e"
    and "''__builtins__'' \<notin> predefined_names backend"
  shows "base_namespace e ''__builtins__'' = Some (Dict [])
       \<and> predefined_names_of e \<subseteq> predefined_names backend
       \<and> (\<forall>ns env. effective_namespace e ns = Inr env \<longrightarrow>
             env ''__builtins__'' = Some (Dict [])
           \<and> (\<forall>x. env x \<noteq> None \<longrightarrow>
                  x = ''__builtins__'' \<or> x \<in> predefined_names_of e
                    \<or> (x \<in> free_variables e \<and> ns x \<noteq> None))
           \<and> (\<forall>x. env x = None \<longrightarrow> lookup_name env x = Inl (NameError (Some x))))"
proof -
  from Expression_init_tokens_finish [OF assms(2)] obtain s where s: "finish_scan backend s = Inr e" ..
  note fs = finish_scan_names [OF s]
  have nbi: "''__builtins__'' \<notin> predefined_names_of e"
    using fs(1) assms(3) by blast
  have 1: "base_namespace e ''__builtins__'' = Some (Dict [])"
    unfolding fs(3) using nbi by (simp add: map_add_def restrict_map_def)
  have 3: "env ''__builtins__'' = Some (Dict [])
           \<and> (\<forall>x. env x \<noteq> None \<longrightarrow>
                  x = ''__builtins__'' \<or> x \<in> predefined_names_of e
                    \<or> (x \<in> free_variables e \<and> ns x \<noteq> None))
           \<and> (\<forall>x. env x = None \<longrightarrow> lookup_name env x = Inl (NameError (Some x)))"
    if eff: "effective_namespace e ns = Inr env" for ns env
  proof -
    let ?l = "SupplyImpliedArguments_for backend"
    let ?env0 = "base_namespace e ++ (ns |` free_variables e)"
    from eff have nf: "''__builtins__'' \<notin> free_variables e"
      and env: "env = supply_all ?l ?env0"
      unfolding compiled_effective_namespace [OF assms(2)] fs(5)
      by (simp_all split: if_splits)
    have "''__builtins__'' \<notin> fst ` set ?l"
      using Backend_init_fields [OF assms(1)] assms(3) by blast
    from supply_all_other [OF this]
    have "env ''__builtins__'' = ?env0 ''__builtins__''"
      unfolding env .
    also have "\<dots> = Some (Dict [])"
      using nf 1 by (simp add: map_add_def restrict_map_def)
    finally have a: "env ''__builtins__'' = Some (Dict [])" .
    have b: "x = ''__builtins__'' \<or> x \<in> predefined_names_of e
                    \<or> (x \<in> free_variables e \<and> ns x \<noteq> None)"
      if "env x \<noteq> None" for x
    proof -
      from that have "?env0 x \<noteq> None"
        unfolding env supply_all_None .
      then have "base_namespace e x \<noteq> None \<or> (x \<in> free_variables e \<and> ns x \<noteq> None)"
        by (auto simp: map_add_def restrict_map_def split: option.splits if_splits)
      with compiled_base_dom [OF assms(2), of x] show ?thesis by blast
    qed
    have c: "lookup_name env x = Inl (NameError (Some x))" if "env x = None" for x
      using that a by (rule lookup_name_unbound)
    from a b c show ?thesis by blast
  qed
  from 1 fs(1) 3 show ?thesis by blast
qed

text \<open>
  A witness for C10: \<^verbatim>\<open>add_d(10)\<close> with the backend of the tests; \<^verbatim>\<open>open\<close> is not
  reachable.
\<close>

theorem builtins_hidden_witness:
  "base_namespace (projr (Expression_init test_backend ''add_d(10)'')) ''__builtins__'' = Some (Dict [])
   \<and> projr (effective_namespace (projr (Expression_init test_backend ''add_d(10)''))
              [''d'' \<mapsto> Val (VInt 3)]) ''__builtins__'' = Some (Dict [])
   \<and> lookup_name (projr (effective_namespace (projr (Expression_init test_backend ''add_d(10)''))
                           [''d'' \<mapsto> Val (VInt 3)])) ''open'' = Inl (NameError (Some ''open''))"
proof -
  let ?e = "projr (Expression_init test_backend ''add_d(10)'')"
  let ?ns = "[''d'' \<mapsto> Val (VInt 3)]"
  have b: "Backend_init py_builtins test_module None None None = Inr test_backend"
    using test_backend_constructed by (simp add: test_backend_result_def)
  have c: "\<not> isl (Expression_init test_backend ''add_d(10)'')" by code_simp
  have n: "''__builtins__'' \<notin> predefined_names test_backend" by code_simp
  have "\<not> isl (effective_namespace ?e ?ns)" by code_simp
  then have eff: "effective_namespace ?e ?ns = Inr (projr (effective_namespace ?e ?ns))"
    by (rule not_isl_projr)
  have u: "projr (effective_namespace ?e ?ns) ''open'' = None" by code_simp
  from builtins_hidden [OF b Expression_init_projr [OF c] n] eff u
  show ?thesis by blast
qed


end
